theory Spec2Isabelle
  imports Complex_Main "HOL-Library.AList"
begin

section \<open>Python values shared by the modules\<close>

text \<open>
  Exceptions that the modelled functions can raise. A function that may raise returns
  \<open>error + 'a\<close>, with \<open>Inl\<close> carrying the exception.
\<close>

datatype error = KeyError | ValueError | OverflowError

text \<open>
  A Python \<open>str\<close> is a sequence of code points. Every non-ASCII character of the
  source's literals lies in Latin-1, so each code point is one \<open>char\<close>
  (\<open>CHR 0xC1\<close> is the capital A with acute accent).

  A Python \<open>dict\<close> keeps insertion order, so it is an association list;
  \<open>AList.update\<close> is item assignment (an existing key keeps its place, a new key
  goes to the end), \<open>map_of\<close> is lookup.
\<close>

type_synonym 'v pydict = "(string \<times> 'v) list"

text \<open>
  The free-form values the source builds its reports and schedules from. Numbers read
  from a table are \<open>float\<close>s in the source; they are rationals here, which says
  nothing about rounding and leaves out the infinite values.
\<close>

datatype pyval =
    PNone
  | PBool bool
  | PInt int
  | PNum rat
  | PStr string
  | PList "pyval list"
  | PDict "(string \<times> pyval) list"

text \<open>Truth value of an object, as \<open>not x\<close> and \<open>if x\<close> read it.\<close>

fun truthy :: "pyval \<Rightarrow> bool" where
  "truthy PNone = False"
| "truthy (PBool b) = b"
| "truthy (PInt i) = (i \<noteq> 0)"
| "truthy (PNum r) = (r \<noteq> 0)"
| "truthy (PStr s) = (s \<noteq> [])"
| "truthy (PList xs) = (xs \<noteq> [])"
| "truthy (PDict d) = (d \<noteq> [])"

definition dict_has :: "'v pydict \<Rightarrow> string \<Rightarrow> bool" where
  "dict_has d k = (map_of d k \<noteq> None)"

definition dict_get :: "'v pydict \<Rightarrow> string \<Rightarrow> error + 'v" where
  "dict_get d k = (case map_of d k of None \<Rightarrow> Inl KeyError | Some v \<Rightarrow> Inr v)"

text \<open>Decimal formatting, as \<open>str\<close>, \<open>{:02d}\<close> and \<open>strftime\<close> do it.\<close>

definition digit_char :: "nat \<Rightarrow> char" where
  "digit_char n = ''0123456789'' ! n"

fun str_nat :: "nat \<Rightarrow> string" where
  "str_nat n =
     (if n < 10 then [digit_char n]
      else str_nat (n div 10) @ [digit_char (n mod 10)])"

declare str_nat.simps [simp del]

definition fmt02 :: "nat \<Rightarrow> string" where
  "fmt02 n = (if n < 10 then ''0'' @ str_nat n else str_nat n)"

definition fmt04 :: "nat \<Rightarrow> string" where
  "fmt04 n = replicate (4 - length (str_nat n)) (CHR ''0'') @ str_nat n"

definition fmt06 :: "nat \<Rightarrow> string" where
  "fmt06 n = replicate (6 - length (str_nat n)) (CHR ''0'') @ str_nat n"

definition str_int :: "int \<Rightarrow> string" where
  "str_int i = (if i < 0 then ''-'' @ str_nat (nat (- i)) else str_nat (nat i))"

section \<open>Dates (the part of \<open>datetime\<close> the source uses)\<close>

record pydate =
  d_year :: nat
  d_month :: nat
  d_day :: nat

text \<open>
  A \<open>datetime\<close> is a \<open>date\<close> with a time of day (Python's \<open>datetime\<close> is a
  subclass of \<open>date\<close>); the functions on dates below accept both.
\<close>

record pydatetime = pydate +
  dt_hour :: nat
  dt_minute :: nat
  dt_second :: nat
  dt_microsecond :: nat

definition mk_date :: "nat \<Rightarrow> nat \<Rightarrow> nat \<Rightarrow> pydate" where
  "mk_date y m d = \<lparr>d_year = y, d_month = m, d_day = d\<rparr>"

text \<open>\<open>datetime(y, m, d)\<close>: the time of day defaults to midnight.\<close>

definition mk_datetime :: "nat \<Rightarrow> nat \<Rightarrow> nat \<Rightarrow> pydatetime" where
  "mk_datetime y m d =
     \<lparr>d_year = y, d_month = m, d_day = d,
      dt_hour = 0, dt_minute = 0, dt_second = 0, dt_microsecond = 0\<rparr>"

definition is_leap :: "nat \<Rightarrow> bool" where
  "is_leap y = (y mod 4 = 0 \<and> (y mod 100 \<noteq> 0 \<or> y mod 400 = 0))"

definition days_in_month :: "nat \<Rightarrow> nat \<Rightarrow> nat" where
  "days_in_month y m =
     (if m = 2 then (if is_leap y then 29 else 28)
      else if m = 4 \<or> m = 6 \<or> m = 9 \<or> m = 11 then 30 else 31)"

definition days_before_year :: "nat \<Rightarrow> nat" where
  "days_before_year y =
     (let p = y - 1 in p * 365 + p div 4 + p div 400 - p div 100)"

definition days_before_month :: "nat \<Rightarrow> nat \<Rightarrow> nat" where
  "days_before_month y m = sum_list (map (days_in_month y) [1..<m])"

definition toordinal :: "'a pydate_scheme \<Rightarrow> nat" where
  "toordinal d =
     days_before_year (d_year d) + days_before_month (d_year d) (d_month d) + d_day d"

text \<open>\<open>date.weekday()\<close>: Monday is 0, Sunday is 6.\<close>

definition weekday :: "'a pydate_scheme \<Rightarrow> nat" where
  "weekday d = (toordinal d + 6) mod 7"

text \<open>\<open>strftime('%A')\<close> in the default (C) locale.\<close>

definition day_name :: "nat \<Rightarrow> string" where
  "day_name w =
     [''Monday'', ''Tuesday'', ''Wednesday'', ''Thursday'', ''Friday'', ''Saturday'',
      ''Sunday''] ! (w mod 7)"

text \<open>Comparison of dates is comparison of the triples (year, month, day).\<close>

definition date_less :: "'a pydate_scheme \<Rightarrow> 'a pydate_scheme \<Rightarrow> bool" where
  "date_less a b =
     (d_year a < d_year b \<or>
      (d_year a = d_year b \<and>
       (d_month a < d_month b \<or> (d_month a = d_month b \<and> d_day a < d_day b))))"

definition same_day :: "'a pydate_scheme \<Rightarrow> 'a pydate_scheme \<Rightarrow> bool" where
  "same_day a b = (d_year a = d_year b \<and> d_month a = d_month b \<and> d_day a = d_day b)"

definition date_le :: "pydate \<Rightarrow> pydate \<Rightarrow> bool" where
  "date_le a b = (date_less a b \<or> same_day a b)"

text \<open>
  Two datetimes compare as the tuples (year, month, day, hour, minute, second,
  microsecond).
\<close>

definition time_less :: "pydatetime \<Rightarrow> pydatetime \<Rightarrow> bool" where
  "time_less a b =
     (dt_hour a < dt_hour b \<or>
      (dt_hour a = dt_hour b \<and>
       (dt_minute a < dt_minute b \<or>
        (dt_minute a = dt_minute b \<and>
         (dt_second a < dt_second b \<or>
          (dt_second a = dt_second b \<and> dt_microsecond a < dt_microsecond b))))))"

definition same_time :: "pydatetime \<Rightarrow> pydatetime \<Rightarrow> bool" where
  "same_time a b =
     (dt_hour a = dt_hour b \<and> dt_minute a = dt_minute b \<and> dt_second a = dt_second b \<and>
      dt_microsecond a = dt_microsecond b)"

definition datetime_less :: "pydatetime \<Rightarrow> pydatetime \<Rightarrow> bool" where
  "datetime_less a b = (date_less a b \<or> (same_day a b \<and> time_less a b))"

definition datetime_le :: "pydatetime \<Rightarrow> pydatetime \<Rightarrow> bool" where
  "datetime_le a b = (datetime_less a b \<or> (same_day a b \<and> same_time a b))"

text \<open>
  \<open>d + timedelta(days=1)\<close>. The result must stay within \<open>date.max\<close>, the last day
  of year 9999; beyond it Python raises \<open>OverflowError\<close>.
\<close>

definition next_day :: "'a pydate_scheme \<Rightarrow> 'a pydate_scheme" where
  "next_day d =
     (if d_day d < days_in_month (d_year d) (d_month d) then d\<lparr>d_day := d_day d + 1\<rparr>
      else if d_month d < 12 then d\<lparr>d_month := d_month d + 1, d_day := 1\<rparr>
      else d\<lparr>d_year := d_year d + 1, d_month := 1, d_day := 1\<rparr>)"

definition add_one_day :: "'a pydate_scheme \<Rightarrow> error + 'a pydate_scheme" where
  "add_one_day d =
     (let n = next_day d in if d_year n > 9999 then Inl OverflowError else Inr n)"

text \<open>
  \<open>date(y, m, d)\<close>, for the constant months and days the source passes. CPython reads
  the year as a C \<open>int\<close> and raises \<open>OverflowError\<close> when it does not fit in 32
  bits; otherwise it raises \<open>ValueError\<close> unless the year is in 1..9999 and the day
  exists in the month.
\<close>

definition date_of :: "int \<Rightarrow> nat \<Rightarrow> nat \<Rightarrow> error + pydate" where
  "date_of y m d =
     (if y < - 2147483648 \<or> 2147483647 < y then Inl OverflowError
      else if 1 \<le> y \<and> y \<le> 9999 \<and> 1 \<le> m \<and> m \<le> 12 \<and> 1 \<le> d \<and>
              d \<le> days_in_month (nat y) m
      then Inr (mk_date (nat y) m d) else Inl ValueError)"

text \<open>The dates that a \<open>date\<close> object can hold.\<close>

definition valid_date :: "'a pydate_scheme \<Rightarrow> bool" where
  "valid_date d =
     (1 \<le> d_year d \<and> d_year d \<le> 9999 \<and> 1 \<le> d_month d \<and> d_month d \<le> 12 \<and>
      1 \<le> d_day d \<and> d_day d \<le> days_in_month (d_year d) (d_month d))"

text \<open>
  \<open>strftime('%d/%m')\<close>, \<open>strftime('%d/%m/%Y')\<close> and \<open>isoformat()\<close>. \<open>strftime\<close>
  is the C library's: on Linux \<open>%Y\<close> writes the year without padding (999, not 0999),
  and so does the model. \<open>isoformat\<close> is Python's own and pads the year to four
  digits.
\<close>

definition strftime_dm :: "'a pydate_scheme \<Rightarrow> string" where
  "strftime_dm d = fmt02 (d_day d) @ ''/'' @ fmt02 (d_month d)"

definition strftime_dmY :: "'a pydate_scheme \<Rightarrow> string" where
  "strftime_dmY d = strftime_dm d @ ''/'' @ str_nat (d_year d)"

definition isoformat :: "pydatetime \<Rightarrow> string" where
  "isoformat d =
     fmt04 (d_year d) @ ''-'' @ fmt02 (d_month d) @ ''-'' @ fmt02 (d_day d) @ ''T'' @
     fmt02 (dt_hour d) @ '':'' @ fmt02 (dt_minute d) @ '':'' @ fmt02 (dt_second d) @
     (if dt_microsecond d = 0 then [] else ''.'' @ fmt06 (dt_microsecond d))"

section \<open>holiday\_manager.py: HolidayManager\<close>

record HolidayManager =
  holidays_file :: "string option"
  holidays :: "string pydict"
  optional_holidays :: "string pydict"

text \<open>The tables of \<open>_load_default_holidays\<close>.\<close>

definition default_holidays :: "string pydict" where
  "default_holidays =
     [(''01/01'', ''Confraterniza'' @ [CHR 0xE7, CHR 0xE3] @ ''o Universal''),
      (''03/04'', ''Sexta-feira Santa''),
      (''21/04'', ''Tiradentes''),
      (''01/05'', ''Dia Mundial do Trabalho''),
      (''07/09'', ''Independ'' @ [CHR 0xEA] @ ''ncia do Brasil''),
      (''12/10'', ''Nossa Senhora Aparecida''),
      (''02/11'', ''Finados''),
      (''15/11'', ''Proclama'' @ [CHR 0xE7, CHR 0xE3] @ ''o da Rep'' @ [CHR 0xFA] @ ''blica''),
      (''20/11'', ''Dia da Consci'' @ [CHR 0xEA] @ ''ncia Negra''),
      (''25/12'', ''Natal'')]"

definition default_optional_holidays :: "string pydict" where
  "default_optional_holidays =
     [(''02/01'', ''Ponto Facultativo''),
      (''16/02'', ''Carnaval''),
      (''17/02'', ''Carnaval''),
      (''18/02'', ''Quarta-feira de Cinzas''),
      (''02/04'', ''Quinta-feira Santa''),
      (''20/04'', ''Ponto Facultativo''),
      (''04/06'', ''Corpus Christi''),
      (''05/06'', ''Ponto Facultativo''),
      (''15/08'', ''Assun'' @ [CHR 0xE7, CHR 0xE3] @ ''o de Nossa Senhora''),
      (''30/10'', ''Dia do Servidor P'' @ [CHR 0xFA] @ ''blico''),
      (''07/12'', ''Imaculada Concei'' @ [CHR 0xE7, CHR 0xE3] @ ''o''),
      (''08/12'', ''Imaculada Concei'' @ [CHR 0xE7, CHR 0xE3] @ ''o''),
      (''24/12'', ''Ponto Facultativo''),
      (''31/12'', ''Ponto Facultativo'')]"

text \<open>\<open>HolidayManager()\<close> with no holidays file: the default tables are loaded.\<close>

definition default_manager :: HolidayManager where
  "default_manager =
     \<lparr>holidays_file = None, holidays = default_holidays,
      optional_holidays = default_optional_holidays\<rparr>"

definition is_holiday :: "HolidayManager \<Rightarrow> 'a pydate_scheme \<Rightarrow> bool" where
  "is_holiday hm date = (let date_key = strftime_dm date in dict_has (holidays hm) date_key)"

definition is_optional_holiday :: "HolidayManager \<Rightarrow> 'a pydate_scheme \<Rightarrow> bool" where
  "is_optional_holiday hm date =
     (let date_key = strftime_dm date in dict_has (optional_holidays hm) date_key)"

text \<open>\<open>get_holiday_name\<close> returns \<open>None\<close> when the key is in neither table.\<close>

definition get_holiday_name :: "HolidayManager \<Rightarrow> 'a pydate_scheme \<Rightarrow> string option" where
  "get_holiday_name hm date =
     (let date_key = strftime_dm date in
      case map_of (holidays hm) date_key of
        Some n \<Rightarrow> Some n
      | None \<Rightarrow>
         (case map_of (optional_holidays hm) date_key of
            Some n \<Rightarrow> Some (''[FACULTATIVO] '' @ n)
          | None \<Rightarrow> None))"

section \<open>holiday\_manager.py: CalendarWithHolidays\<close>

record day_entry =
  e_date :: string
  e_day_of_week :: string
  e_is_holiday :: bool
  e_is_optional_holiday :: bool
  e_holiday_name :: "string option"

text \<open>The body of the \<open>while\<close> loop of \<open>generate_calendar\<close> up to the dict store.\<close>

definition make_entry :: "HolidayManager \<Rightarrow> pydate \<Rightarrow> day_entry" where
  "make_entry hm current_date =
     (let date_key = strftime_dmY current_date;
          entry = \<lparr>e_date = date_key, e_day_of_week = day_name (weekday current_date),
                   e_is_holiday = False, e_is_optional_holiday = False,
                   e_holiday_name = None\<rparr>
      in if is_holiday hm current_date
         then entry\<lparr>e_is_holiday := True,
                    e_holiday_name := get_holiday_name hm current_date\<rparr>
         else if is_optional_holiday hm current_date
         then entry\<lparr>e_is_optional_holiday := True,
                    e_holiday_name := get_holiday_name hm current_date\<rparr>
         else entry)"

text \<open>The key and the entry that one pass of the loop stores.\<close>

definition entry_for :: "HolidayManager \<Rightarrow> pydate \<Rightarrow> string \<times> day_entry" where
  "entry_for hm d = (strftime_dmY d, make_entry hm d)"

text \<open>
  The loop \<open>while current_date <= end_date\<close>: the entry is stored under its key, then
  the date advances by one day (which raises at the end of year 9999).
\<close>

function calendar_loop ::
  "HolidayManager \<Rightarrow> pydate \<Rightarrow> pydate \<Rightarrow> day_entry pydict \<Rightarrow> error + day_entry pydict"
where
  "calendar_loop hm current_date end_date calendar =
     (if date_le current_date end_date
      then (let calendar' =
                  AList.update (strftime_dmY current_date) (make_entry hm current_date) calendar
            in case add_one_day current_date of
                 Inl e \<Rightarrow> Inl e
               | Inr nxt \<Rightarrow> calendar_loop hm nxt end_date calendar')
      else Inr calendar)"
  by pat_completeness auto
termination
proof (relation "measures [\<lambda>(hm, c, e, cal). d_year e + 1 - d_year c,
                           \<lambda>(hm, c, e, cal). 13 - d_month c,
                           \<lambda>(hm, c, e, cal). 32 - d_day c]")
  show "wf (measures [\<lambda>(hm, c, e, cal). d_year e + 1 - d_year c,
                      \<lambda>(hm, c, e, cal). 13 - d_month c,
                      \<lambda>(hm, c, e, cal). 32 - d_day c])"
    by simp
next
  fix hm :: HolidayManager and current_date end_date :: pydate
    and calendar x :: "day_entry pydict" and nxt :: pydate
  assume le: "date_le current_date end_date"
    and nx: "add_one_day current_date = Inr nxt"
  have n: "nxt = next_day current_date"
    using nx by (simp add: add_one_day_def Let_def split: if_splits)
  have y: "d_year current_date \<le> d_year end_date"
    using le by (auto simp: date_le_def date_less_def same_day_def)
  have dim: "days_in_month (d_year current_date) (d_month current_date) \<le> 31"
    by (simp add: days_in_month_def)
  show "((hm, nxt, end_date, x), (hm, current_date, end_date, calendar))
        \<in> measures [\<lambda>(hm, c, e, cal). d_year e + 1 - d_year c,
                     \<lambda>(hm, c, e, cal). 13 - d_month c,
                     \<lambda>(hm, c, e, cal). 32 - d_day c]"
    using y dim by (auto simp: n next_day_def)
qed

declare calendar_loop.simps [simp del]

text \<open>\<open>CalendarWithHolidays(year, ...).generate_calendar()\<close>.\<close>

definition generate_calendar :: "HolidayManager \<Rightarrow> int \<Rightarrow> error + day_entry pydict" where
  "generate_calendar hm year =
     (case date_of year 1 1 of
        Inl e \<Rightarrow> Inl e
      | Inr start_date \<Rightarrow>
         (case date_of year 12 31 of
            Inl e \<Rightarrow> Inl e
          | Inr end_date \<Rightarrow> calendar_loop hm start_date end_date []))"

text \<open>
  \<open>get_non_working_days\<close> and \<open>get_working_days\<close> read \<open>self.calendar\<close>, the dict
  stored by \<open>generate_calendar\<close>; they take it as an argument here. The two date
  arguments of \<open>get_working_days\<close> are not used by the source.
\<close>

fun get_non_working_days :: "day_entry pydict \<Rightarrow> string list" where
  "get_non_working_days [] = []"
| "get_non_working_days ((date_key, entry) # rest) =
     (if e_is_holiday entry \<or> e_is_optional_holiday entry
      then date_key # get_non_working_days rest
      else if e_day_of_week entry \<in> set [''Saturday'', ''Sunday'']
      then date_key # get_non_working_days rest
      else get_non_working_days rest)"

fun get_working_days :: "day_entry pydict \<Rightarrow> string \<Rightarrow> string \<Rightarrow> string list" where
  "get_working_days [] start_date end_date = []"
| "get_working_days ((date_key, entry) # rest) start_date end_date =
     (if \<not> e_is_holiday entry \<and> \<not> e_is_optional_holiday entry
      then (if e_day_of_week entry \<notin> set [''Saturday'', ''Sunday'']
            then date_key # get_working_days rest start_date end_date
            else get_working_days rest start_date end_date)
      else get_working_days rest start_date end_date)"

section \<open>holiday\_manager.py: mark\_holidays\_in\_calendar\<close>

text \<open>
  The function copies the dict it is given and writes to the copy, so the dicts live in
  a store: an address is an index into the list of dict objects, \<open>calendar_dict.copy()\<close>
  allocates a new object, and every item assignment is a write to one address. The values
  held by a dict are not mutated by the function and are kept as values.
\<close>

type_synonym heap = "pyval pydict list"

definition dict_copy :: "heap \<Rightarrow> nat \<Rightarrow> heap \<times> nat" where
  "dict_copy h a = (h @ [h ! a], length h)"

definition holiday_mark :: "string \<Rightarrow> string \<Rightarrow> pyval" where
  "holiday_mark kind holiday_name =
     PDict [(''type'', PStr kind), (''name'', PStr holiday_name), (''class'', PStr kind)]"

text \<open>One \<open>for date_key, holiday_name in table.items()\<close> loop, writing to object \<open>m\<close>.\<close>

fun mark_loop :: "string \<Rightarrow> string pydict \<Rightarrow> heap \<Rightarrow> nat \<Rightarrow> heap" where
  "mark_loop kind [] h m = h"
| "mark_loop kind ((date_key, holiday_name) # rest) h m =
     mark_loop kind rest
       (if \<not> dict_has (h ! m) date_key
        then h[m := AList.update date_key (holiday_mark kind holiday_name) (h ! m)]
        else h) m"

text \<open>
  The result is the new store and the address of the returned dict. \<open>None\<close> stands for an
  address that names no object, which a Python reference never does.
\<close>

definition mark_holidays_in_calendar :: "HolidayManager \<Rightarrow> heap \<Rightarrow> nat \<Rightarrow> (heap \<times> nat) option" where
  "mark_holidays_in_calendar hm h calendar_dict =
     (if calendar_dict < length h
      then (let (h1, marked_calendar) = dict_copy h calendar_dict;
                h2 = mark_loop ''holiday'' (holidays hm) h1 marked_calendar;
                h3 = mark_loop ''optional_holiday'' (optional_holidays hm) h2 marked_calendar
            in Some (h3, marked_calendar))
      else None)"

section \<open>generate\_schedules\_2026\_2027.py: CalendarReader.\_extract\_letive\_days\<close>

function letive_loop ::
  "pydatetime \<Rightarrow> pydatetime \<Rightarrow> pydatetime list \<Rightarrow> error + pydatetime list"
where
  "letive_loop current_date end_date letive_days =
     (if datetime_le current_date end_date
      then (let letive_days' =
                  (if weekday current_date \<in> set [0, 2, 4, 5]
                   then letive_days @ [current_date] else letive_days)
            in case add_one_day current_date of
                 Inl e \<Rightarrow> Inl e
               | Inr nxt \<Rightarrow> letive_loop nxt end_date letive_days')
      else Inr letive_days)"
  by pat_completeness auto
termination
proof (relation "measures [\<lambda>(c, e, acc). d_year e + 1 - d_year c,
                           \<lambda>(c, e, acc). 13 - d_month c,
                           \<lambda>(c, e, acc). 32 - d_day c]")
  show "wf (measures [\<lambda>(c, e, acc). d_year e + 1 - d_year c,
                      \<lambda>(c, e, acc). 13 - d_month c,
                      \<lambda>(c, e, acc). 32 - d_day c])"
    by simp
next
  fix current_date end_date nxt :: pydatetime and letive_days x :: "pydatetime list"
  assume le: "datetime_le current_date end_date"
    and nx: "add_one_day current_date = Inr nxt"
  have n: "nxt = next_day current_date"
    using nx by (simp add: add_one_day_def Let_def split: if_splits)
  have y: "d_year current_date \<le> d_year end_date"
    using le by (auto simp: datetime_le_def datetime_less_def date_less_def same_day_def)
  have dim: "days_in_month (d_year current_date) (d_month current_date) \<le> 31"
    by (simp add: days_in_month_def)
  show "((nxt, end_date, x), (current_date, end_date, letive_days))
        \<in> measures [\<lambda>(c, e, acc). d_year e + 1 - d_year c,
                     \<lambda>(c, e, acc). 13 - d_month c,
                     \<lambda>(c, e, acc). 32 - d_day c]"
    using y dim by (auto simp: n next_day_def)
qed

declare letive_loop.simps [simp del]

text \<open>The argument \<open>rows\<close> is not read by the source.\<close>

definition extract_letive_days :: "'rows \<Rightarrow> error + pydatetime list" where
  "extract_letive_days rows =
     (let start_date = mk_datetime 2026 3 1;
          end_date = mk_datetime 2027 12 31
      in letive_loop start_date end_date [])"

section \<open>schedule\_manager.py: tables\<close>

text \<open>
  \<open>pd.read_csv(file, header=None)\<close> belongs to pandas, not to this program: it is a
  parameter \<open>read_csv\<close> that gives the rows of cells it read, or \<open>None\<close> when it
  raises. A cell holds a string, a number or NaN. \<open>pd.to_numeric(..., errors='coerce')\<close>
  keeps numbers, turns what it cannot read into NaN, and reads strings with the
  parameter \<open>to_numeric\<close>. pandas gives a converted column one dtype (a NaN in it
  makes the other numbers floats); the model converts cell by cell, which turns the same
  cells into NaN and does not follow the dtype of the others.

  A DataFrame is a list of rows, each with its index label; the columns are known by
  position (0 Disciplina, 1 Hora\_aula, 2 Encontros, 3 Sigla, 4 Horas). All rows of a
  table have the same number of cells.
\<close>

datatype cell = CStr string | CNum rat | CNaN

type_synonym table = "cell list list"

type_synonym frame = "(nat \<times> cell list) list"

record env =
  read_csv :: "string \<Rightarrow> table option"
  to_numeric :: "string \<Rightarrow> rat option"
  now :: pydatetime

definition frame_of_table :: "table \<Rightarrow> frame" where
  "frame_of_table t = zip [0..<length t] t"

text \<open>\<open>df.empty\<close>: no rows or no columns.\<close>

definition frame_empty :: "frame \<Rightarrow> bool" where
  "frame_empty f = (case f of [] \<Rightarrow> True | (i, r) # rest \<Rightarrow> r = [])"

text \<open>\<open>df.iloc[:, :5]\<close>.\<close>

definition first_columns :: "nat \<Rightarrow> frame \<Rightarrow> frame" where
  "first_columns n f = map (\<lambda>(i, r). (i, take n r)) f"

text \<open>\<open>df.reset_index(drop=True)\<close>.\<close>

definition reset_index :: "frame \<Rightarrow> frame" where
  "reset_index f = zip [0..<length f] (map snd f)"

definition to_numeric_cell :: "(string \<Rightarrow> rat option) \<Rightarrow> cell \<Rightarrow> cell" where
  "to_numeric_cell parse c =
     (case c of
        CStr s \<Rightarrow> (case parse s of Some q \<Rightarrow> CNum q | None \<Rightarrow> CNaN)
      | CNum q \<Rightarrow> CNum q
      | CNaN \<Rightarrow> CNaN)"

text \<open>\<open>df[col] = pd.to_numeric(df[col], errors='coerce')\<close> for the column at \<open>c\<close>.\<close>

definition convert_column :: "(string \<Rightarrow> rat option) \<Rightarrow> nat \<Rightarrow> frame \<Rightarrow> frame" where
  "convert_column parse c f = map (\<lambda>(i, r). (i, r[c := to_numeric_cell parse (r ! c)])) f"

text \<open>\<open>df.dropna(subset=[col])\<close>: the rows keep their index labels.\<close>

definition dropna :: "nat \<Rightarrow> frame \<Rightarrow> frame" where
  "dropna c f = filter (\<lambda>(i, r). r ! c \<noteq> CNaN) f"

text \<open>The numbers of a column; \<open>sum()\<close> skips NaN.\<close>

definition column_numbers :: "nat \<Rightarrow> frame \<Rightarrow> rat list" where
  "column_numbers c f =
     List.map_filter (\<lambda>(i, r). case r ! c of CNum q \<Rightarrow> Some q | _ \<Rightarrow> None) f"

text \<open>\<open>int(x)\<close> on a number: truncation towards zero.\<close>

definition int_of_rat :: "rat \<Rightarrow> int" where
  "int_of_rat q = (if 0 \<le> q then \<lfloor>q\<rfloor> else \<lceil>q\<rceil>)"

text \<open>\<open>report[key].append(x)\<close> on a report dict.\<close>

definition list_append :: "pyval pydict \<Rightarrow> string \<Rightarrow> pyval \<Rightarrow> pyval pydict" where
  "list_append d key x =
     (case map_of d key of
        Some (PList xs) \<Rightarrow> AList.update key (PList (xs @ [x])) d
      | _ \<Rightarrow> d)"

definition VALIDO :: string where
  "VALIDO = ''V'' @ [CHR 0xC1] @ ''LIDO''"

definition INVALIDO :: string where
  "INVALIDO = ''INV'' @ [CHR 0xC1] @ ''LIDO''"

section \<open>schedule\_manager.py: CalendarValidator\<close>

record CalendarValidator =
  calendar_file :: string
  academic_calendar :: "frame option"

definition load_calendar :: "env \<Rightarrow> CalendarValidator \<Rightarrow> bool \<times> CalendarValidator" where
  "load_calendar ev self =
     (case read_csv ev (calendar_file self) of
        None \<Rightarrow> (False, self)
      | Some t \<Rightarrow> (True, self\<lparr>academic_calendar := Some (frame_of_table t)\<rparr>))"

definition validate :: "CalendarValidator \<Rightarrow> pyval pydict" where
  "validate self =
     (let report = [(''status'', PStr VALIDO), (''errors'', PList []),
                    (''warnings'', PList []), (''summary'', PDict [])]
      in case academic_calendar self of
           None \<Rightarrow>
             list_append (AList.update ''status'' (PStr INVALIDO) report) ''errors''
               (PStr (''Calend'' @ [CHR 0xE1] @ ''rio n'' @ [CHR 0xE3] @ ''o carregado''))
         | Some df \<Rightarrow>
             if frame_empty df
             then AList.update ''status'' (PStr INVALIDO)
                    (list_append report ''errors''
                       (PStr (''Calend'' @ [CHR 0xE1] @ ''rio vazio'')))
             else report)"

section \<open>schedule\_manager.py: DisciplineAnalyzer\<close>

record DisciplineAnalyzer =
  distribution_file :: string
  disciplines :: "frame option"
  statistics :: "pyval pydict"

text \<open>
  \<open>load_disciplines\<close> returns \<open>False\<close> on any exception of its body: when the file
  cannot be read, when the table has fewer than five columns (the five column names
  cannot be assigned) and when it has no row (\<open>iloc[0, 0]\<close> is out of range). In the
  last two cases \<open>self.disciplines\<close> already holds the first five columns.
\<close>

definition load_disciplines :: "env \<Rightarrow> DisciplineAnalyzer \<Rightarrow> bool \<times> DisciplineAnalyzer" where
  "load_disciplines ev self =
     (case read_csv ev (distribution_file self) of
        None \<Rightarrow> (False, self)
      | Some t \<Rightarrow>
         (let df = frame_of_table t;
              d1 = first_columns 5 df;
              self1 = self\<lparr>disciplines := Some d1\<rparr>
          in case d1 of
               [] \<Rightarrow> (False, self1)
             | (i0, r0) # rest \<Rightarrow>
                 if length r0 \<noteq> 5 then (False, self1)
                 else (let d2 = (if r0 ! 0 = CStr ''Disciplina'' then reset_index rest else d1);
                           d3 = convert_column (to_numeric ev) 1 d2;
                           d4 = convert_column (to_numeric ev) 2 d3;
                           d5 = convert_column (to_numeric ev) 4 d4;
                           d6 = dropna 1 d5
                       in (True, self\<lparr>disciplines := Some d6\<rparr>))))"

text \<open>
  The loop \<open>for load in sorted(... .unique())\<close> of \<open>analyze\<close>. The sums of
  \<open>analyze\<close> are exact here; the source adds 64-bit floats or integers.
\<close>

fun by_load_loop :: "frame \<Rightarrow> rat list \<Rightarrow> pyval pydict \<Rightarrow> pyval pydict" where
  "by_load_loop f [] by_load = by_load"
| "by_load_loop f (load # loads) by_load =
     (let subset = filter (\<lambda>(i, r). r ! 1 = CNum load) f
      in by_load_loop f loads
           (AList.update (str_int (int_of_rat load) @ ''h'')
              (PDict [(''count'', PInt (int (length subset))),
                      (''total_hours'', PNum (sum_list (column_numbers 1 subset)))])
              by_load))"

definition analyze :: "DisciplineAnalyzer \<Rightarrow> pyval pydict \<times> DisciplineAnalyzer" where
  "analyze self =
     (case disciplines self of
        None \<Rightarrow>
          ([(''error'', PStr (''Disciplinas n'' @ [CHR 0xE3] @ ''o carregadas''))], self)
      | Some f \<Rightarrow>
          if frame_empty f
          then ([(''error'', PStr (''Disciplinas n'' @ [CHR 0xE3] @ ''o carregadas''))], self)
          else (let analysis =
                      [(''total_disciplines'', PInt (int (length f))),
                       (''total_hours'', PNum (sum_list (column_numbers 1 f))),
                       (''by_load'',
                        PDict (by_load_loop f (sort (remdups (column_numbers 1 f))) []))]
                in (analysis, self\<lparr>statistics := analysis\<rparr>)))"

section \<open>schedule\_manager.py: ScheduleGenerator\<close>

definition slot :: "string \<Rightarrow> string \<Rightarrow> int \<Rightarrow> pyval" where
  "slot d t n = PDict [(''day'', PStr d), (''time'', PStr t), (''duration'', PInt n)]"

definition WEEKLY_SLOTS :: "pyval list" where
  "WEEKLY_SLOTS =
     [slot ''Segunda'' ''19:00-20:40'' 100,
      slot ''Segunda'' ''21:00-22:40'' 100,
      slot ''Quarta'' ''19:00-20:40'' 100,
      slot ''Quarta'' ''21:00-22:40'' 100]"

definition BIWEEKLY_SLOTS :: "pyval list" where
  "BIWEEKLY_SLOTS =
     [slot ''Sexta'' ''19:00-20:40'' 100,
      slot ''Sexta'' ''21:00-22:40'' 100,
      slot (''S'' @ [CHR 0xE1] @ ''bado'') ''08:00-09:40'' 100,
      slot (''S'' @ [CHR 0xE1] @ ''bado'') ''10:00-11:40'' 100,
      slot (''S'' @ [CHR 0xE1] @ ''bado'') ''13:00-14:40'' 100,
      slot (''S'' @ [CHR 0xE1] @ ''bado'') ''15:00-16:40'' 100]"

text \<open>\<open>self.capacity\<close>, as \<open>__init__\<close> sets it.\<close>

definition capacity :: "(int pydict) pydict" where
  "capacity =
     [(''weekly'', [(''sem1'', 64), (''sem2'', 80)]),
      (''biweekly'', [(''sem1'', 96), (''sem2'', 120)])]"

text \<open>
  The list of disciplines is not read. A semester that is not a key of the capacity
  table raises \<open>KeyError\<close>.
\<close>

definition generate_weekly_schedule :: "pyval list \<Rightarrow> string \<Rightarrow> error + pyval pydict" where
  "generate_weekly_schedule disciplines_arg semester =
     (case dict_get capacity ''weekly'' of
        Inl e \<Rightarrow> Inl e
      | Inr by_semester \<Rightarrow>
         (case dict_get by_semester semester of
            Inl e \<Rightarrow> Inl e
          | Inr c \<Rightarrow>
             Inr [(''type'', PStr ''weekly''),
                  (''semester'', PStr semester),
                  (''capacity'', PInt c),
                  (''slots'', PList WEEKLY_SLOTS),
                  (''assignments'', PList [])]))"

definition generate_biweekly_schedule :: "pyval list \<Rightarrow> string \<Rightarrow> error + pyval pydict" where
  "generate_biweekly_schedule disciplines_arg semester =
     (case dict_get capacity ''biweekly'' of
        Inl e \<Rightarrow> Inl e
      | Inr by_semester \<Rightarrow>
         (case dict_get by_semester semester of
            Inl e \<Rightarrow> Inl e
          | Inr c \<Rightarrow>
             Inr [(''type'', PStr ''biweekly''),
                  (''semester'', PStr semester),
                  (''capacity'', PInt c),
                  (''slots'', PList BIWEEKLY_SLOTS),
                  (''assignments'', PList [])]))"

section \<open>schedule\_manager.py: ConflictValidator\<close>

definition validate_schedule :: "pyval \<Rightarrow> pyval pydict" where
  "validate_schedule schedule =
     (let report = [(''status'', PStr VALIDO), (''conflicts'', PList []),
                    (''warnings'', PList []), (''summary'', PDict [])]
      in if \<not> truthy schedule
         then list_append (AList.update ''status'' (PStr INVALIDO) report) ''conflicts''
                (PStr (''Hor'' @ [CHR 0xE1] @ ''rio vazio''))
         else report)"

section \<open>Coverage of a discipline\<close>

definition assignments_of :: "pyval pydict \<Rightarrow> pyval list" where
  "assignments_of schedule =
     (case map_of schedule ''assignments'' of Some (PList xs) \<Rightarrow> xs | _ \<Rightarrow> [])"

definition warnings_of :: "pyval pydict \<Rightarrow> pyval list" where
  "warnings_of report =
     (case map_of report ''warnings'' of Some (PList xs) \<Rightarrow> xs | _ \<Rightarrow> [])"

definition conflicts_of :: "pyval pydict \<Rightarrow> pyval list" where
  "conflicts_of report =
     (case map_of report ''conflicts'' of Some (PList xs) \<Rightarrow> xs | _ \<Rightarrow> [])"

text \<open>
  Modelled from the spec: \<open>requiredSessionCount\<close>, which the source does not compute.
  It is the ceiling of the required hours over the slot duration (40 hours in
  100-minute slots are 24 sessions).
\<close>

definition required_session_count :: "nat \<Rightarrow> nat \<Rightarrow> nat" where
  "required_session_count required_hours slot_duration_minutes =
     (required_hours * 60 + slot_duration_minutes - 1) div slot_duration_minutes"

text \<open>
  Modelled from the spec: the shape of an Assignment and of a HourShortfall warning,
  which the source never builds. An assignment is a dict that gives a slot instance its
  discipline under \<open>discipline\<close>; a shortfall warning is a dict of kind
  \<open>HourShortfall\<close> for a discipline.
\<close>

definition names_discipline :: "string \<Rightarrow> pyval \<Rightarrow> bool" where
  "names_discipline name a =
     (case a of PDict d \<Rightarrow> map_of d ''discipline'' = Some (PStr name) | _ \<Rightarrow> False)"

definition allocated_sessions :: "string \<Rightarrow> pyval pydict \<Rightarrow> nat" where
  "allocated_sessions name schedule =
     length (filter (names_discipline name) (assignments_of schedule))"

definition is_shortfall :: "string \<Rightarrow> pyval \<Rightarrow> bool" where
  "is_shortfall name w =
     (case w of
        PDict d \<Rightarrow> map_of d ''kind'' = Some (PStr ''HourShortfall'') \<and>
                   map_of d ''discipline'' = Some (PStr name)
      | _ \<Rightarrow> False)"

definition shortfall_recorded :: "string \<Rightarrow> pyval pydict \<Rightarrow> bool" where
  "shortfall_recorded name report = list_ex (is_shortfall name) (warnings_of report)"

section \<open>schedule\_manager.py: ScheduleManager.process\<close>

record ScheduleManager =
  course :: string
  year :: string

definition steps_of :: "pyval pydict \<Rightarrow> pyval pydict" where
  "steps_of results = (case map_of results ''steps'' of Some (PDict st) \<Rightarrow> st | _ \<Rightarrow> [])"

text \<open>\<open>results['steps'][name] = v\<close>.\<close>

definition set_step :: "pyval pydict \<Rightarrow> string \<Rightarrow> pyval \<Rightarrow> pyval pydict" where
  "set_step results name v =
     AList.update ''steps'' (PDict (AList.update name v (steps_of results))) results"

text \<open>
  What \<open>process\<close> returns, or the exception it raises. Its \<open>print\<close> calls write to the
  terminal only; the one that reads \<open>disc_analysis['total_disciplines']\<close> raises
  \<open>KeyError\<close> when the analysis is the error dict.
\<close>

definition process :: "env \<Rightarrow> ScheduleManager \<Rightarrow> string \<Rightarrow> string \<Rightarrow> error + pyval pydict" where
  "process ev self calendar_file_arg distribution_file_arg =
     (let results = [(''course'', PStr (course self)),
                     (''year'', PStr (year self)),
                     (''timestamp'', PStr (isoformat (now ev))),
                     (''steps'', PDict [])];
          (loaded, calendar_validator) =
             load_calendar ev \<lparr>calendar_file = calendar_file_arg, academic_calendar = None\<rparr>
      in if \<not> loaded
         then Inr (set_step results ''calendar_validation'' (PDict [(''status'', PStr ''ERRO'')]))
         else
          (let cal_report = validate calendar_validator;
               results = set_step results ''calendar_validation'' (PDict cal_report);
               (loaded2, discipline_analyzer) =
                  load_disciplines ev
                    \<lparr>distribution_file = distribution_file_arg, disciplines = None,
                     statistics = []\<rparr>
           in if \<not> loaded2
              then Inr (set_step results ''discipline_analysis''
                          (PDict [(''error'',
                                   PStr (''N'' @ [CHR 0xE3] @ ''o foi poss'' @ [CHR 0xED] @
                                         ''vel carregar''))]))
              else
               (let (disc_analysis, discipline_analyzer') = analyze discipline_analyzer;
                    results = set_step results ''discipline_analysis'' (PDict disc_analysis)
                in case dict_get disc_analysis ''total_disciplines'' of
                     Inl e \<Rightarrow> Inl e
                   | Inr n \<Rightarrow>
                  (case dict_get disc_analysis ''total_hours'' of
                     Inl e \<Rightarrow> Inl e
                   | Inr th \<Rightarrow>
                  (case generate_weekly_schedule [] ''sem1'' of
                     Inl e \<Rightarrow> Inl e
                   | Inr weekly_sched \<Rightarrow>
                  (case generate_biweekly_schedule [] ''sem1'' of
                     Inl e \<Rightarrow> Inl e
                   | Inr biweekly_sched \<Rightarrow>
                     (let results = set_step results ''schedule_generation''
                                      (PDict [(''weekly'', PDict weekly_sched),
                                              (''biweekly'', PDict biweekly_sched)]);
                          weekly_validation = validate_schedule (PDict weekly_sched);
                          biweekly_validation = validate_schedule (PDict biweekly_sched);
                          results = set_step results ''conflict_validation''
                                      (PDict [(''weekly'', PDict weekly_validation),
                                              (''biweekly'', PDict biweekly_validation)])
                      in Inr (AList.update ''export_status''
                                (PStr (''Pronto para exporta'' @ [CHR 0xE7, CHR 0xE3] @ ''o''))
                                results))))))))"

section \<open>Rows, readers and files used in the statements\<close>

text \<open>
  The rows that follow the header row of a table, if its first row is one; the row that
  \<open>load_disciplines\<close> keeps for a row of the table (its first five cells, with the
  three numeric columns converted); and whether the hour cell of a row is numeric.
\<close>

definition body_rows :: "table \<Rightarrow> table" where
  "body_rows t =
     (case t of
        [] \<Rightarrow> []
      | r0 # rest \<Rightarrow> if take 5 r0 ! 0 = CStr ''Disciplina'' then rest else t)"

definition numeric_row :: "(string \<Rightarrow> rat option) \<Rightarrow> cell list \<Rightarrow> cell list" where
  "numeric_row parse r =
     (let r5 = take 5 r
      in r5[1 := to_numeric_cell parse (r5 ! 1),
            2 := to_numeric_cell parse (r5 ! 2),
            4 := to_numeric_cell parse (r5 ! 4)])"

definition numeric_hours :: "(string \<Rightarrow> rat option) \<Rightarrow> cell list \<Rightarrow> bool" where
  "numeric_hours parse r = (to_numeric_cell parse (r ! 1) \<noteq> CNaN)"

text \<open>
  A reader of unsigned decimal integers, one possible \<open>to_numeric\<close>; it is used in
  the examples only.
\<close>

definition digit_value :: "char \<Rightarrow> nat option" where
  "digit_value c =
     map_of [(CHR ''0'', 0), (CHR ''1'', 1), (CHR ''2'', 2), (CHR ''3'', 3), (CHR ''4'', 4),
             (CHR ''5'', 5), (CHR ''6'', 6), (CHR ''7'', 7), (CHR ''8'', 8), (CHR ''9'', 9)] c"

fun decimal_value :: "nat \<Rightarrow> string \<Rightarrow> nat option" where
  "decimal_value acc [] = Some acc"
| "decimal_value acc (c # cs) =
     (case digit_value c of None \<Rightarrow> None | Some n \<Rightarrow> decimal_value (10 * acc + n) cs)"

definition decimal_to_numeric :: "string \<Rightarrow> rat option" where
  "decimal_to_numeric s = (if s = [] then None else map_option of_nat (decimal_value 0 s))"

text \<open>
  An environment with a calendar file, a distribution file holding a given table, and a
  given clock; the file names are those of \<open>main\<close>.
\<close>

definition sample_env :: "table \<Rightarrow> pydatetime \<Rightarrow> env" where
  "sample_env t clock =
     \<lparr>read_csv = (\<lambda>f. if f = ''CAL_2026-2027_Calendario.csv'' then Some [[CStr ''2026'']]
                      else if f = ''DIST_2026-2027_Criminologia.csv'' then Some t
                      else None),
      to_numeric = decimal_to_numeric,
      now = clock\<rparr>"

text \<open>A distribution table with a header, a well-formed row and a row whose hours are not a number.\<close>

definition sample_rows :: table where
  "sample_rows =
     [[CStr ''Disciplina'', CStr ''Hora_aula'', CStr ''Encontros'', CStr ''Sigla'', CStr ''Horas''],
      [CStr ''Criminologia I'', CStr ''40'', CStr ''24'', CStr ''CRI'', CStr ''40''],
      [CStr ''Vitimologia'', CStr ''quarenta'', CStr ''24'', CStr ''VIT'', CStr ''40'']]"

definition sample_analyzer :: DisciplineAnalyzer where
  "sample_analyzer =
     \<lparr>distribution_file = ''DIST_2026-2027_Criminologia.csv'', disciplines = None,
      statistics = []\<rparr>"

definition sample_manager :: ScheduleManager where
  "sample_manager = \<lparr>course = ''criminologia'', year = ''2026-2027''\<rparr>"

text \<open>
  A manager whose file lists 1 January both as a holiday and as an optional holiday
  (what \<open>_parse_holiday_line\<close> stores for two such lines).
\<close>

definition overlapping_manager :: HolidayManager where
  "overlapping_manager =
     \<lparr>holidays_file = Some ''feriados.txt'',
      holidays = [(''01/01'', ''Ano Novo'')],
      optional_holidays = [(''01/01'', ''Ponto Facultativo''), (''02/01'', ''Ponto Facultativo'')]\<rparr>"

section \<open>Formatting of numbers\<close>

lemma str_nat_digit: "n < 10 \<Longrightarrow> str_nat n = [digit_char n]"
  by (subst str_nat.simps) simp

lemma str_nat_step: "\<not> n < 10 \<Longrightarrow> str_nat n = str_nat (n div 10) @ [digit_char (n mod 10)]"
  by (subst str_nat.simps) simp

lemma digit_inj:
  assumes a: "a < 10" and b: "b < 10" and e: "digit_char a = digit_char b"
  shows "a = b"
proof -
  have d: "distinct ''0123456789''" by simp
  have l: "length ''0123456789'' = 10" by simp
  have "''0123456789'' ! a = ''0123456789'' ! b" using e by (simp only: digit_char_def)
  then show "a = b" using nth_eq_iff_index_eq [OF d, of a b] a b l by simp
qed

lemma digit_char_0: "digit_char 0 = CHR ''0''"
  by (simp add: digit_char_def)

lemma fmt02_lt100:
  assumes "n < 100"
  shows "fmt02 n = [digit_char (n div 10), digit_char (n mod 10)]"
proof (cases "n < 10")
  case True
  then show ?thesis by (simp add: fmt02_def str_nat_digit digit_char_0)
next
  case False
  moreover have "n div 10 < 10" using assms by simp
  ultimately show ?thesis by (simp add: fmt02_def str_nat_step str_nat_digit)
qed

lemma fmt02_inj:
  assumes "a < 100" "b < 100" "fmt02 a = fmt02 b"
  shows "a = b"
proof -
  have e: "digit_char (a div 10) = digit_char (b div 10)"
          "digit_char (a mod 10) = digit_char (b mod 10)"
    using assms by (simp_all add: fmt02_lt100)
  have "a div 10 = b div 10" using assms e(1) by (intro digit_inj) simp_all
  moreover have "a mod 10 = b mod 10" using assms e(2) by (intro digit_inj) simp_all
  ultimately show ?thesis by (metis div_mult_mod_eq)
qed

lemma length_fmt02: "n < 100 \<Longrightarrow> length (fmt02 n) = 2"
  by (simp add: fmt02_lt100)

lemma str_nat_not_Nil: "str_nat n \<noteq> []"
  by (subst str_nat.simps) simp

lemma length_str_nat_step: "\<not> n < 10 \<Longrightarrow> 2 \<le> length (str_nat n)"
proof -
  assume a: "\<not> n < 10"
  show ?thesis
    using str_nat_not_Nil [of "n div 10"]
    by (cases "str_nat (n div 10)") (simp_all add: str_nat_step [OF a])
qed

lemma str_nat_inj: "str_nat a = str_nat b \<Longrightarrow> a = b"
proof (induction a arbitrary: b rule: str_nat.induct)
  case (1 a)
  show ?case
  proof (cases "a < 10")
    case True
    then have la: "length (str_nat a) = 1" by (simp add: str_nat_digit)
    have lb: "b < 10"
    proof (rule ccontr)
      assume "\<not> b < 10"
      then have "2 \<le> length (str_nat b)" by (rule length_str_nat_step)
      then show False using la "1.prems" by simp
    qed
    then have "digit_char a = digit_char b"
      using True "1.prems" by (simp add: str_nat_digit)
    then show ?thesis using digit_inj True lb by blast
  next
    case False
    have nb: "\<not> b < 10"
    proof
      assume "b < 10"
      then have "length (str_nat b) = 1" by (simp add: str_nat_digit)
      moreover have "2 \<le> length (str_nat a)" using False by (rule length_str_nat_step)
      ultimately show False using "1.prems" by simp
    qed
    have "str_nat (a div 10) @ [digit_char (a mod 10)] =
          str_nat (b div 10) @ [digit_char (b mod 10)]"
      using "1.prems" str_nat_step [OF False] str_nat_step [OF nb] by simp
    then have e: "str_nat (a div 10) = str_nat (b div 10)"
      and d: "digit_char (a mod 10) = digit_char (b mod 10)"
      by simp_all
    have "a div 10 = b div 10" using "1.IH" [OF False e] .
    moreover have "a mod 10 = b mod 10" using d by (intro digit_inj) simp_all
    ultimately show ?thesis by (metis div_mult_mod_eq)
  qed
qed

section \<open>The holiday tables read day and month only\<close>

text \<open>
  Claim C10. Whether a date is a holiday or an optional holiday depends on its day of
  the month and its month only: two dates (or datetimes) that agree on both get the same
  answer from \<open>is_holiday\<close> and from \<open>is_optional_holiday\<close>, whatever their years.
\<close>

theorem holiday_classification_ignores_year:
  fixes a :: "'a pydate_scheme" and b :: "'b pydate_scheme"
  assumes "d_day a = d_day b" and "d_month a = d_month b"
  shows "is_holiday hm a = is_holiday hm b \<and>
         is_optional_holiday hm a = is_optional_holiday hm b"
  using assms by (simp add: is_holiday_def is_optional_holiday_def strftime_dm_def)

text \<open>21 April 2026 and 21 April 2027 (Tiradentes) under the default tables.\<close>

theorem holiday_classification_ignores_year_witness:
  "d_day (mk_date 2026 4 21) = d_day (mk_datetime 2027 4 21) \<and>
   d_month (mk_date 2026 4 21) = d_month (mk_datetime 2027 4 21) \<and>
   is_holiday default_manager (mk_date 2026 4 21) \<and>
   is_holiday default_manager (mk_datetime 2027 4 21) \<and>
   \<not> is_optional_holiday default_manager (mk_date 2026 4 21) \<and>
   \<not> is_optional_holiday default_manager (mk_datetime 2027 4 21)"
proof -
  have d: "d_day (mk_date 2026 4 21) = d_day (mk_datetime 2027 4 21)"
    and m: "d_month (mk_date 2026 4 21) = d_month (mk_datetime 2027 4 21)"
    by (simp_all add: mk_date_def mk_datetime_def)
  have k: "strftime_dm (mk_date 2026 4 21) = ''21/04''"
    by (simp add: strftime_dm_def mk_date_def fmt02_def str_nat_digit str_nat_step digit_char_def)
  have h: "is_holiday default_manager (mk_date 2026 4 21)"
    by (simp add: is_holiday_def k dict_has_def default_manager_def default_holidays_def)
  have o: "\<not> is_optional_holiday default_manager (mk_date 2026 4 21)"
    by (simp add: is_optional_holiday_def k dict_has_def default_manager_def
        default_optional_holidays_def)
  show ?thesis
    using holiday_classification_ignores_year [OF d m, of default_manager] d m h o by simp
qed

section \<open>The conflict validator\<close>

lemma validate_schedule_truthy:
  "truthy schedule \<Longrightarrow>
   validate_schedule schedule =
     [(''status'', PStr VALIDO), (''conflicts'', PList []),
      (''warnings'', PList []), (''summary'', PDict [])]"
  by (simp add: validate_schedule_def)

lemma validate_schedule_falsy:
  "\<not> truthy schedule \<Longrightarrow>
   validate_schedule schedule =
     [(''status'', PStr INVALIDO),
      (''conflicts'', PList [PStr (''Hor'' @ [CHR 0xE1] @ ''rio vazio'')]),
      (''warnings'', PList []), (''summary'', PDict [])]"
  by (simp add: validate_schedule_def list_append_def)

lemma VALIDO_neq_INVALIDO: "VALIDO \<noteq> INVALIDO"
  by (simp add: VALIDO_def INVALIDO_def)

text \<open>
  Claim C2. For every schedule, the report of \<open>validate_schedule\<close> has the status
  of invalidity exactly when its list of conflicts is not empty; a report without
  conflicts has the status of validity, and the status is one of the two.
\<close>

theorem validate_schedule_status:
  "(dict_get (validate_schedule schedule) ''status'' = Inr (PStr INVALIDO))
     = (conflicts_of (validate_schedule schedule) \<noteq> []) \<and>
   (conflicts_of (validate_schedule schedule) = []
      \<longrightarrow> dict_get (validate_schedule schedule) ''status'' = Inr (PStr VALIDO)) \<and>
   (dict_get (validate_schedule schedule) ''status'' = Inr (PStr INVALIDO) \<or>
    dict_get (validate_schedule schedule) ''status'' = Inr (PStr VALIDO))"
proof (cases "truthy schedule")
  case True
  show ?thesis
    using VALIDO_neq_INVALIDO
    by (simp add: validate_schedule_truthy [OF True] dict_get_def conflicts_of_def)
next
  case False
  show ?thesis
    by (simp add: validate_schedule_falsy [OF False] dict_get_def conflicts_of_def)
qed

theorem validate_schedule_status_witness:
  "conflicts_of (validate_schedule (PDict [(''type'', PStr ''weekly'')])) = [] \<and>
   dict_get (validate_schedule (PDict [(''type'', PStr ''weekly'')])) ''status''
     = Inr (PStr VALIDO) \<and>
   warnings_of (validate_schedule (PDict [(''type'', PStr ''weekly'')])) = []"
proof -
  have c: "conflicts_of (validate_schedule (PDict [(''type'', PStr ''weekly'')])) = []"
    by (simp add: validate_schedule_def conflicts_of_def)
  have w: "warnings_of (validate_schedule (PDict [(''type'', PStr ''weekly'')])) = []"
    by (simp add: validate_schedule_def warnings_of_def)
  show ?thesis
    using validate_schedule_status [of "PDict [(''type'', PStr ''weekly'')]"] c w by simp
qed

section \<open>Dates and their keys\<close>

lemma days_in_month_bounds: "28 \<le> days_in_month y m \<and> days_in_month y m \<le> 31"
  by (simp add: days_in_month_def)

lemma date_less_irrefl: "same_day a b \<Longrightarrow> \<not> date_less a b"
  by (auto simp: date_less_def same_day_def)

lemma date_less_trans: "date_less a b \<Longrightarrow> date_less b c \<Longrightarrow> date_less a c"
  by (auto simp: date_less_def)

lemma same_day_eq: "same_day a b \<Longrightarrow> (a::pydate) = b"
  by (cases a, cases b) (simp add: same_day_def)

lemma date_less_next_day: "date_less d (next_day d)"
  by (simp add: date_less_def next_day_def)

lemma next_day_valid:
  assumes "valid_date d" "d_year (next_day d) \<le> 9999"
  shows "valid_date (next_day d)"
proof -
  have b: "28 \<le> days_in_month (d_year d) (d_month d + 1)"
    using days_in_month_bounds by blast
  have c: "28 \<le> days_in_month (d_year d + 1) 1"
    using days_in_month_bounds by blast
  show ?thesis using assms b c by (auto simp: valid_date_def next_day_def split: if_splits)
qed

lemma next_day_least:
  assumes "valid_date c" "valid_date d" "date_less c d"
  shows "date_less (next_day c) d \<or> same_day (next_day c) d"
  using assms by (auto simp: valid_date_def next_day_def date_less_def same_day_def)

lemma add_one_day_Inr: "add_one_day d = Inr n \<Longrightarrow> n = next_day d \<and> d_year n \<le> 9999"
  by (auto simp: add_one_day_def Let_def split: if_splits)

lemma strftime_dmY_inj:
  assumes "valid_date a" "valid_date b" "strftime_dmY a = strftime_dmY b"
  shows "same_day a b"
proof -
  have da: "d_day a < 100" "d_month a < 100"
    using assms(1) days_in_month_bounds [of "d_year a" "d_month a"]
    by (auto simp: valid_date_def)
  have db: "d_day b < 100" "d_month b < 100"
    using assms(2) days_in_month_bounds [of "d_year b" "d_month b"]
    by (auto simp: valid_date_def)
  have e: "fmt02 (d_day a) @ ''/'' @ fmt02 (d_month a) @ ''/'' @ str_nat (d_year a) =
           fmt02 (d_day b) @ ''/'' @ fmt02 (d_month b) @ ''/'' @ str_nat (d_year b)"
    using assms(3) by (simp add: strftime_dmY_def strftime_dm_def)
  have 1: "fmt02 (d_day a) = fmt02 (d_day b) \<and>
           ''/'' @ fmt02 (d_month a) @ ''/'' @ str_nat (d_year a) =
           ''/'' @ fmt02 (d_month b) @ ''/'' @ str_nat (d_year b)"
    using e length_fmt02 [OF da(1)] length_fmt02 [OF db(1)]
    by (intro iffD1 [OF append_eq_append_conv]) simp_all
  then have "fmt02 (d_month a) @ ''/'' @ str_nat (d_year a) =
             fmt02 (d_month b) @ ''/'' @ str_nat (d_year b)"
    by simp
  then have 2: "fmt02 (d_month a) = fmt02 (d_month b) \<and>
                ''/'' @ str_nat (d_year a) = ''/'' @ str_nat (d_year b)"
    using length_fmt02 [OF da(2)] length_fmt02 [OF db(2)]
    by (intro iffD1 [OF append_eq_append_conv]) simp_all
  have "d_day a = d_day b" using 1 fmt02_inj [OF da(1) db(1)] by simp
  moreover have "d_month a = d_month b" using 2 fmt02_inj [OF da(2) db(2)] by simp
  moreover have "d_year a = d_year b" using 2 str_nat_inj by simp
  ultimately show ?thesis by (simp add: same_day_def)
qed

lemma update_new_key: "k \<notin> fst ` set l \<Longrightarrow> AList.update k v l = l @ [(k, v)]"
  by (induction l) auto

lemma calendar_loop_dates:
  assumes "calendar_loop hm cur fin cal = Inr res"
    and "valid_date cur"
    and "cal = map (entry_for hm) ds"
    and "\<forall>d\<in>set ds. valid_date d \<and> date_less d cur"
  shows "\<exists>ds'. res = map (entry_for hm) (ds @ ds') \<and>
               (\<forall>d\<in>set ds'. valid_date d \<and> \<not> date_less d cur \<and> date_le d fin) \<and>
               (\<forall>d. valid_date d \<and> \<not> date_less d cur \<and> date_le d fin \<longrightarrow> d \<in> set ds') \<and>
               sorted_wrt date_less ds'"
  using assms
proof (induction hm cur fin cal arbitrary: ds rule: calendar_loop.induct)
  case (1 hm cur fin cal)
  show ?case
  proof (cases "date_le cur fin")
    case False
    then have r: "res = cal"
      using "1.prems"(1) by (simp add: calendar_loop.simps)
    have "\<And>d. \<not> date_less d cur \<Longrightarrow> date_le d fin \<Longrightarrow> False"
      using False by (auto simp: date_le_def date_less_def same_day_def)
    then show ?thesis using r "1.prems"(3) by (intro exI [of _ "[]"]) auto
  next
    case True
    obtain nxt where nx: "add_one_day cur = Inr nxt"
      using "1.prems"(1) True
      by (cases "add_one_day cur") (simp_all add: calendar_loop.simps Let_def)
    have n: "nxt = next_day cur" and ny: "d_year nxt \<le> 9999"
      using add_one_day_Inr [OF nx] by blast+
    have vn: "valid_date nxt" using next_day_valid "1.prems"(2) n ny by blast
    have fresh: "strftime_dmY cur \<notin> fst ` set cal"
    proof
      assume "strftime_dmY cur \<in> fst ` set cal"
      then obtain d where d: "d \<in> set ds" "strftime_dmY d = strftime_dmY cur"
        using "1.prems"(3) by (auto simp: entry_for_def)
      then have "same_day d cur"
        using strftime_dmY_inj "1.prems"(2,4) by blast
      then show False using d(1) "1.prems"(4) date_less_irrefl by blast
    qed
    let ?cal' = "AList.update (strftime_dmY cur) (make_entry hm cur) cal"
    have c': "?cal' = map (entry_for hm) (ds @ [cur])"
      using update_new_key [OF fresh] "1.prems"(3) by (simp add: entry_for_def)
    have rec: "calendar_loop hm nxt fin ?cal' = Inr res"
      using "1.prems"(1) True nx by (simp add: calendar_loop.simps Let_def)
    have inv: "\<forall>d\<in>set (ds @ [cur]). valid_date d \<and> date_less d nxt"
      using "1.prems"(2,4) n date_less_next_day [of cur] date_less_trans by auto
    from "1.IH" [OF True refl nx rec vn c' inv]
    obtain ds'' where r: "res = map (entry_for hm) ((ds @ [cur]) @ ds'')"
      and a: "\<forall>d\<in>set ds''. valid_date d \<and> \<not> date_less d nxt \<and> date_le d fin"
      and b: "\<forall>d. valid_date d \<and> \<not> date_less d nxt \<and> date_le d fin \<longrightarrow> d \<in> set ds''"
      and s: "sorted_wrt date_less ds''"
      by blast
    have lt: "date_less cur nxt" using n date_less_next_day by simp
    have a': "\<forall>d\<in>set (cur # ds''). valid_date d \<and> \<not> date_less d cur \<and> date_le d fin"
    proof
      fix d assume "d \<in> set (cur # ds'')"
      then consider "d = cur" | "d \<in> set ds''" by auto
      then show "valid_date d \<and> \<not> date_less d cur \<and> date_le d fin"
      proof cases
        case 1
        then show ?thesis using "1.prems"(2) True by (auto simp: date_less_def)
      next
        case 2
        then have "valid_date d" "\<not> date_less d nxt" "date_le d fin" using a by auto
        moreover have "\<not> date_less d cur"
          using \<open>\<not> date_less d nxt\<close> lt date_less_trans by blast
        ultimately show ?thesis by simp
      qed
    qed
    have b': "\<forall>d. valid_date d \<and> \<not> date_less d cur \<and> date_le d fin \<longrightarrow> d \<in> set (cur # ds'')"
    proof (intro allI impI)
      fix d assume h: "valid_date d \<and> \<not> date_less d cur \<and> date_le d fin"
      show "d \<in> set (cur # ds'')"
      proof (cases "same_day cur d")
        case True
        then show ?thesis using same_day_eq by auto
      next
        case False
        then have "date_less cur d"
          using h by (auto simp: date_less_def same_day_def)
        then have "date_less nxt d \<or> same_day nxt d"
          using next_day_least "1.prems"(2) h n by blast
        then have "\<not> date_less d nxt"
          by (auto simp: date_less_def same_day_def)
        then show ?thesis using b h by auto
      qed
    qed
    have s': "sorted_wrt date_less (cur # ds'')"
    proof -
      have "\<forall>d\<in>set ds''. date_less cur d"
      proof
        fix d assume "d \<in> set ds''"
        then have "\<not> date_less d nxt" using a by blast
        then have "date_less nxt d \<or> same_day nxt d"
          by (auto simp: date_less_def same_day_def)
        then show "date_less cur d"
          using lt by (auto simp: date_less_def same_day_def)
      qed
      then show ?thesis using s by simp
    qed
    show ?thesis
      using r a' b' s' by (intro exI [of _ "cur # ds''"]) simp
  qed
qed

section \<open>The calendar of a year\<close>

lemma calendar_loop_succeeds:
  "d_year fin < 9999 \<Longrightarrow> \<exists>res. calendar_loop hm cur fin cal = Inr res"
proof (induction hm cur fin cal rule: calendar_loop.induct)
  case (1 hm cur fin cal)
  show ?case
  proof (cases "date_le cur fin")
    case False
    then show ?thesis by (simp add: calendar_loop.simps)
  next
    case True
    then have "d_year cur \<le> d_year fin"
      by (auto simp: date_le_def date_less_def same_day_def)
    then have "d_year (next_day cur) \<le> 9999"
      using "1.prems" by (simp add: next_day_def)
    then have nx: "add_one_day cur = Inr (next_day cur)"
      by (simp add: add_one_day_def Let_def)
    show ?thesis
      using "1.IH" [OF True refl nx "1.prems"] True nx
      by (simp add: calendar_loop.simps [of hm cur fin cal] Let_def)
  qed
qed

lemma calendar_loop_overflow:
  assumes "valid_date cur" "date_le cur (mk_date 9999 12 31)"
  shows "calendar_loop hm cur (mk_date 9999 12 31) cal = Inl OverflowError"
  using assms
proof (induction hm cur "mk_date 9999 12 31" cal rule: calendar_loop.induct)
  case (1 hm cur cal)
  show ?case
  proof (cases "add_one_day cur")
    case (Inl e)
    then have "e = OverflowError"
      by (auto simp: add_one_day_def Let_def split: if_splits)
    then show ?thesis
      using Inl "1.prems"(2) by (simp add: calendar_loop.simps [of hm cur _ cal] Let_def)
  next
    case (Inr nxt)
    have n: "nxt = next_day cur" and ny: "d_year nxt \<le> 9999"
      using add_one_day_Inr [OF Inr] by blast+
    have vn: "valid_date nxt" using next_day_valid "1.prems"(1) n ny by blast
    have "days_in_month (d_year nxt) (d_month nxt) \<le> 31"
      using days_in_month_bounds by blast
    then have le: "date_le nxt (mk_date 9999 12 31)"
      using vn by (auto simp: valid_date_def date_le_def date_less_def same_day_def mk_date_def)
    show ?thesis
      using "1.hyps" [OF "1.prems"(2) refl Inr vn le] "1.prems"(2) Inr
      by (simp add: calendar_loop.simps [of hm cur _ cal] Let_def)
  qed
qed

lemma date_of_jan1: "1 \<le> y \<Longrightarrow> y \<le> 9999 \<Longrightarrow> date_of y 1 1 = Inr (mk_date (nat y) 1 1)"
  by (simp add: date_of_def days_in_month_def)

lemma date_of_dec31: "1 \<le> y \<Longrightarrow> y \<le> 9999 \<Longrightarrow> date_of y 12 31 = Inr (mk_date (nat y) 12 31)"
  by (simp add: date_of_def days_in_month_def)

lemma generate_calendar_in_range:
  "1 \<le> y \<Longrightarrow> y \<le> 9999 \<Longrightarrow>
   generate_calendar hm y = calendar_loop hm (mk_date (nat y) 1 1) (mk_date (nat y) 12 31) []"
  unfolding generate_calendar_def by (simp only: date_of_jan1 date_of_dec31 sum.case)

lemma generate_calendar_out_of_range:
  "y < 1 \<or> 9999 < y \<Longrightarrow>
   generate_calendar hm y =
     Inl (if y < - 2147483648 \<or> 2147483647 < y then OverflowError else ValueError)"
  by (auto simp: generate_calendar_def date_of_def)

lemma generate_calendar_Inr_range:
  assumes "generate_calendar hm y = Inr cal"
  shows "1 \<le> y \<and> y \<le> 9998"
proof -
  have a: "1 \<le> y \<and> y \<le> 9999"
    using assms generate_calendar_out_of_range [of y hm] by (cases "y < 1 \<or> 9999 < y") auto
  have "y \<noteq> 9999"
  proof
    assume y: "y = 9999"
    have "valid_date (mk_date 9999 1 1)"
      by (simp add: valid_date_def mk_date_def days_in_month_def)
    moreover have "date_le (mk_date 9999 1 1) (mk_date 9999 12 31)"
      by (simp add: date_le_def date_less_def mk_date_def)
    ultimately have "generate_calendar hm y = Inl OverflowError"
      using calendar_loop_overflow y by (simp add: generate_calendar_in_range)
    then show False using assms by simp
  qed
  then show ?thesis using a by simp
qed

lemma generate_calendar_dates:
  assumes "generate_calendar hm y = Inr cal"
  shows "\<exists>ds. cal = map (entry_for hm) ds \<and>
              (\<forall>d. d \<in> set ds \<longleftrightarrow> valid_date d \<and> d_year d = nat y) \<and>
              sorted_wrt date_less ds"
proof -
  have r: "1 \<le> y" "y \<le> 9998" using generate_calendar_Inr_range [OF assms] by simp_all
  let ?s = "mk_date (nat y) 1 1" and ?e = "mk_date (nat y) 12 31"
  have l: "calendar_loop hm ?s ?e [] = Inr cal"
    using assms r by (simp add: generate_calendar_in_range)
  have "1 \<le> nat y" "nat y \<le> 9999" using r by linarith+
  then have v: "valid_date ?s"
    by (simp add: valid_date_def mk_date_def days_in_month_def)
  from calendar_loop_dates [OF l v, of "[]"]
  obtain ds where c: "cal = map (entry_for hm) ds"
    and a: "\<forall>d\<in>set ds. valid_date d \<and> \<not> date_less d ?s \<and> date_le d ?e"
    and b: "\<forall>d. valid_date d \<and> \<not> date_less d ?s \<and> date_le d ?e \<longrightarrow> d \<in> set ds"
    and s: "sorted_wrt date_less ds"
    by auto
  have k: "\<And>d. valid_date d \<Longrightarrow>
             (\<not> date_less d ?s \<and> date_le d ?e) = (d_year d = nat y)"
  proof -
    fix d :: pydate assume vd: "valid_date d"
    have "days_in_month (d_year d) (d_month d) \<le> 31" using days_in_month_bounds by blast
    then show "(\<not> date_less d ?s \<and> date_le d ?e) = (d_year d = nat y)"
      using vd by (auto simp: valid_date_def date_le_def date_less_def same_day_def mk_date_def)
  qed
  have "\<forall>d. d \<in> set ds \<longleftrightarrow> valid_date d \<and> d_year d = nat y"
    using a b k by blast
  then show ?thesis using c s by blast
qed

lemma sorted_dates_distinct_keys:
  assumes "sorted_wrt date_less ds" "\<forall>d\<in>set ds. valid_date d"
  shows "distinct (map strftime_dmY ds)"
  using assms
proof (induction ds)
  case Nil
  then show ?case by simp
next
  case (Cons d ds)
  have "strftime_dmY d \<notin> strftime_dmY ` set ds"
  proof
    assume "strftime_dmY d \<in> strftime_dmY ` set ds"
    then obtain d' where d': "d' \<in> set ds" "strftime_dmY d = strftime_dmY d'" by auto
    then have "same_day d d'" using strftime_dmY_inj Cons.prems(2) by auto
    moreover have "date_less d d'" using Cons.prems(1) d'(1) by simp
    ultimately show False using date_less_irrefl by blast
  qed
  then show ?case using Cons by simp
qed

lemma generate_calendar_distinct:
  assumes "generate_calendar hm y = Inr cal"
  shows "distinct (map fst cal)"
proof -
  obtain ds where c: "cal = map (entry_for hm) ds"
    and a: "\<forall>d. d \<in> set ds \<longleftrightarrow> valid_date d \<and> d_year d = nat y"
    and s: "sorted_wrt date_less ds"
    using generate_calendar_dates [OF assms] by blast
  have "map fst cal = map strftime_dmY ds"
    using c by (simp add: entry_for_def comp_def)
  then show ?thesis using sorted_dates_distinct_keys [OF s] a by simp
qed

lemma generate_calendar_entry:
  assumes "generate_calendar hm y = Inr cal" "(k, e) \<in> set cal"
  shows "\<exists>d. valid_date d \<and> d_year d = nat y \<and> k = strftime_dmY d \<and> e = make_entry hm d"
proof -
  obtain ds where c: "cal = map (entry_for hm) ds"
    and a: "\<forall>d. d \<in> set ds \<longleftrightarrow> valid_date d \<and> d_year d = nat y"
    using generate_calendar_dates [OF assms(1)] by blast
  obtain d where "d \<in> set ds" "(k, e) = entry_for hm d"
    using assms(2) c by auto
  then show ?thesis using a by (auto simp: entry_for_def)
qed

lemma generate_calendar_has:
  assumes "generate_calendar hm y = Inr cal" "valid_date d" "d_year d = nat y"
  shows "(strftime_dmY d, make_entry hm d) \<in> set cal"
  using generate_calendar_dates [OF assms(1)] assms(2,3) by (auto simp: entry_for_def)

lemma generate_calendar_succeeds:
  assumes "1 \<le> y" "y \<le> 9998"
  shows "\<exists>cal. generate_calendar hm y = Inr cal"
proof -
  have "d_year (mk_date (nat y) 12 31) < 9999" using assms by (simp add: mk_date_def)
  then show ?thesis
    using calendar_loop_succeeds assms by (simp add: generate_calendar_in_range)
qed

section \<open>Holiday marks in a generated calendar\<close>

lemma make_entry_fields:
  "e_is_holiday (make_entry hm d) = is_holiday hm d"
  "e_is_optional_holiday (make_entry hm d) = (\<not> is_holiday hm d \<and> is_optional_holiday hm d)"
  "e_date (make_entry hm d) = strftime_dmY d"
  "e_day_of_week (make_entry hm d) = day_name (weekday d)"
  "e_holiday_name (make_entry hm d) =
     (if is_holiday hm d \<or> is_optional_holiday hm d then get_holiday_name hm d else None)"
  by (simp_all add: make_entry_def Let_def)

lemma get_holiday_name_marked:
  "is_holiday hm d \<or> is_optional_holiday hm d \<Longrightarrow> get_holiday_name hm d \<noteq> None"
  by (auto simp: get_holiday_name_def is_holiday_def is_optional_holiday_def dict_has_def
      Let_def split: option.splits)

lemma take5_key:
  assumes "valid_date d"
  shows "take 5 (strftime_dmY d) = strftime_dm d"
proof -
  have "d_day d < 100" "d_month d < 100"
    using assms days_in_month_bounds [of "d_year d" "d_month d"]
    by (auto simp: valid_date_def)
  then have "length (strftime_dm d) = 5"
    by (simp add: strftime_dm_def length_fmt02)
  then show ?thesis by (simp add: strftime_dmY_def)
qed

text \<open>
  Claim C9. In a calendar returned by \<open>generate_calendar\<close> no entry is marked both
  as a holiday and as an optional holiday: an entry is a holiday exactly when its day
  and month are in the table of holidays, an optional holiday exactly when they are in
  the optional table and not in the table of holidays, and every marked entry has a
  holiday name.
\<close>

theorem generate_calendar_holiday_marks:
  assumes "generate_calendar hm y = Inr cal" and "(k, e) \<in> set cal"
  shows "\<not> (e_is_holiday e \<and> e_is_optional_holiday e) \<and>
         e_is_holiday e = dict_has (holidays hm) (take 5 k) \<and>
         e_is_optional_holiday e =
           (\<not> dict_has (holidays hm) (take 5 k) \<and> dict_has (optional_holidays hm) (take 5 k)) \<and>
         (e_is_holiday e \<or> e_is_optional_holiday e \<longrightarrow> e_holiday_name e \<noteq> None)"
proof -
  obtain d where d: "valid_date d" "k = strftime_dmY d" "e = make_entry hm d"
    using generate_calendar_entry [OF assms] by blast
  have t: "take 5 k = strftime_dm d" using d take5_key by simp
  have h: "is_holiday hm d = dict_has (holidays hm) (take 5 k)"
    by (simp add: is_holiday_def t)
  have o: "is_optional_holiday hm d = dict_has (optional_holidays hm) (take 5 k)"
    by (simp add: is_optional_holiday_def t)
  have n: "e_is_holiday e \<or> e_is_optional_holiday e \<longrightarrow> e_holiday_name e \<noteq> None"
    using get_holiday_name_marked [of hm d] d(3) by (auto simp: make_entry_fields)
  show ?thesis using h o n d(3) by (simp add: make_entry_fields)
qed


lemma str_nat_2026: "str_nat 2026 = ''2026''"
  by (simp add: str_nat_step str_nat_digit digit_char_def)

lemma fmt04_2026: "fmt04 2026 = ''2026''"
  by (simp add: fmt04_def str_nat_2026)

lemmas fmt02_eval = fmt02_def str_nat_digit str_nat_step digit_char_def

lemma key_2026_01_01: "strftime_dmY (mk_date 2026 1 1) = ''01/01/2026''"
  by (simp add: strftime_dmY_def strftime_dm_def mk_date_def str_nat_2026 fmt02_eval)

lemma weekday_2026_01_01: "weekday (mk_date 2026 1 1) = 3"
  by (simp add: weekday_def toordinal_def days_before_year_def days_before_month_def mk_date_def)

lemma entry_overlap_2026_01_01:
  "make_entry overlapping_manager (mk_date 2026 1 1) =
     \<lparr>e_date = ''01/01/2026'', e_day_of_week = ''Thursday'', e_is_holiday = True,
      e_is_optional_holiday = False, e_holiday_name = Some ''Ano Novo''\<rparr>"
proof -
  have h: "is_holiday overlapping_manager (mk_date 2026 1 1)"
    by (simp add: is_holiday_def strftime_dm_def mk_date_def fmt02_eval dict_has_def
        overlapping_manager_def)
  have n: "get_holiday_name overlapping_manager (mk_date 2026 1 1) = Some ''Ano Novo''"
    by (simp add: get_holiday_name_def strftime_dm_def mk_date_def fmt02_eval
        overlapping_manager_def)
  show ?thesis
    using h n key_2026_01_01 weekday_2026_01_01
    by (simp add: make_entry_def Let_def day_name_def)
qed

text \<open>1 January 2026 with a manager that lists the day in both tables.\<close>

theorem generate_calendar_holiday_marks_witness:
  "(case generate_calendar overlapping_manager 2026 of
      Inl err \<Rightarrow> False
    | Inr cal \<Rightarrow>
        (''01/01/2026'',
         \<lparr>e_date = ''01/01/2026'', e_day_of_week = ''Thursday'', e_is_holiday = True,
          e_is_optional_holiday = False, e_holiday_name = Some ''Ano Novo''\<rparr>) \<in> set cal \<and>
        dict_has (holidays overlapping_manager) (take 5 ''01/01/2026'') \<and>
        dict_has (optional_holidays overlapping_manager) (take 5 ''01/01/2026''))"
proof -
  obtain cal where g: "generate_calendar overlapping_manager 2026 = Inr cal"
    using generate_calendar_succeeds [of 2026 overlapping_manager] by auto
  have v: "valid_date (mk_date 2026 1 1)"
    by (simp add: valid_date_def mk_date_def days_in_month_def)
  have y: "d_year (mk_date 2026 1 1) = nat 2026" by (simp add: mk_date_def)
  have m: "(''01/01/2026'',
            \<lparr>e_date = ''01/01/2026'', e_day_of_week = ''Thursday'', e_is_holiday = True,
             e_is_optional_holiday = False, e_holiday_name = Some ''Ano Novo''\<rparr>) \<in> set cal"
    using generate_calendar_has [OF g v y] key_2026_01_01 entry_overlap_2026_01_01 by simp
  have "dict_has (holidays overlapping_manager) (take 5 ''01/01/2026'') \<and>
        dict_has (optional_holidays overlapping_manager) (take 5 ''01/01/2026'')"
    using generate_calendar_holiday_marks [OF g m]
    by (simp add: overlapping_manager_def dict_has_def)
  then show ?thesis using g m by simp
qed

section \<open>Working and non-working days\<close>

lemma in_non_working_days:
  "(k \<in> set (get_non_working_days cal)) =
   (\<exists>e. (k, e) \<in> set cal \<and>
        (e_is_holiday e \<or> e_is_optional_holiday e \<or>
         e_day_of_week e = ''Saturday'' \<or> e_day_of_week e = ''Sunday''))"
  by (induction cal rule: get_non_working_days.induct) auto

lemma in_working_days:
  "(k \<in> set (get_working_days cal s t)) =
   (\<exists>e. (k, e) \<in> set cal \<and>
        \<not> (e_is_holiday e \<or> e_is_optional_holiday e \<or>
           e_day_of_week e = ''Saturday'' \<or> e_day_of_week e = ''Sunday''))"
  by (induction cal s t rule: get_working_days.induct) auto

lemma days_of_distinct_calendar:
  assumes "distinct (map fst cal)" "(k, e) \<in> set cal"
  shows "(k \<in> set (get_non_working_days cal)) =
           (e_is_holiday e \<or> e_is_optional_holiday e \<or>
            e_day_of_week e = ''Saturday'' \<or> e_day_of_week e = ''Sunday'')"
    and "(k \<in> set (get_working_days cal s t)) = (k \<notin> set (get_non_working_days cal))"
proof -
  have u: "\<And>e'. (k, e') \<in> set cal \<Longrightarrow> e' = e"
    using eq_key_imp_eq_value [OF assms(1)] assms(2) by blast
  show a: "(k \<in> set (get_non_working_days cal)) =
           (e_is_holiday e \<or> e_is_optional_holiday e \<or>
            e_day_of_week e = ''Saturday'' \<or> e_day_of_week e = ''Sunday'')"
    unfolding in_non_working_days using u assms(2) by blast
  have "(k \<in> set (get_working_days cal s t)) =
        (\<not> (e_is_holiday e \<or> e_is_optional_holiday e \<or>
            e_day_of_week e = ''Saturday'' \<or> e_day_of_week e = ''Sunday''))"
    unfolding in_working_days using u assms(2) by blast
  then show "(k \<in> set (get_working_days cal s t)) = (k \<notin> set (get_non_working_days cal))"
    using a by simp
qed

text \<open>
  Claim C4, as the code has it. The calendar knows no cohort mode: a day of a generated
  calendar is non-working exactly when it is a holiday, an optional holiday, a Saturday
  or a Sunday, and it is a working day exactly when it is not non-working, whatever the
  two dates given to \<open>get_working_days\<close>.
\<close>

theorem weekend_exclusion_is_global:
  assumes "generate_calendar hm y = Inr cal" and "(k, e) \<in> set cal"
  shows "(k \<in> set (get_non_working_days cal)) =
           (e_is_holiday e \<or> e_is_optional_holiday e \<or>
            e_day_of_week e = ''Saturday'' \<or> e_day_of_week e = ''Sunday'') \<and>
         (k \<in> set (get_working_days cal start_date end_date)) =
           (k \<notin> set (get_non_working_days cal))"
  using days_of_distinct_calendar [OF generate_calendar_distinct [OF assms(1)] assms(2)]
  by blast

lemma key_2026_01_03: "strftime_dmY (mk_date 2026 1 3) = ''03/01/2026''"
  by (simp add: strftime_dmY_def strftime_dm_def mk_date_def str_nat_2026 fmt02_eval)

lemma weekday_2026_01_03: "weekday (mk_date 2026 1 3) = 5"
  by (simp add: weekday_def toordinal_def days_before_year_def days_before_month_def mk_date_def)

lemma entry_default_2026_01_03:
  "make_entry default_manager (mk_date 2026 1 3) =
     \<lparr>e_date = ''03/01/2026'', e_day_of_week = ''Saturday'', e_is_holiday = False,
      e_is_optional_holiday = False, e_holiday_name = None\<rparr>"
proof -
  have h: "\<not> is_holiday default_manager (mk_date 2026 1 3)"
    by (simp add: is_holiday_def strftime_dm_def mk_date_def fmt02_eval dict_has_def
        default_manager_def default_holidays_def)
  have o: "\<not> is_optional_holiday default_manager (mk_date 2026 1 3)"
    by (simp add: is_optional_holiday_def strftime_dm_def mk_date_def fmt02_eval dict_has_def
        default_manager_def default_optional_holidays_def)
  show ?thesis
    using h o key_2026_01_03 weekday_2026_01_03
    by (simp add: make_entry_def Let_def day_name_def)
qed

lemma saturday_2026_01_03_in_calendar:
  assumes "generate_calendar default_manager 2026 = Inr cal"
  shows "(''03/01/2026'',
          \<lparr>e_date = ''03/01/2026'', e_day_of_week = ''Saturday'', e_is_holiday = False,
           e_is_optional_holiday = False, e_holiday_name = None\<rparr>) \<in> set cal"
proof -
  have v: "valid_date (mk_date 2026 1 3)"
    by (simp add: valid_date_def mk_date_def days_in_month_def)
  have y: "d_year (mk_date 2026 1 3) = nat 2026" by (simp add: mk_date_def)
  show ?thesis
    using generate_calendar_has [OF assms v y] key_2026_01_03 entry_default_2026_01_03 by simp
qed

text \<open>Saturday 3 January 2026 under the default tables.\<close>

theorem weekend_exclusion_is_global_witness:
  "(case generate_calendar default_manager 2026 of
      Inl err \<Rightarrow> False
    | Inr cal \<Rightarrow>
        (''03/01/2026'',
         \<lparr>e_date = ''03/01/2026'', e_day_of_week = ''Saturday'', e_is_holiday = False,
          e_is_optional_holiday = False, e_holiday_name = None\<rparr>) \<in> set cal \<and>
        ''03/01/2026'' \<in> set (get_non_working_days cal) \<and>
        ''03/01/2026'' \<notin> set (get_working_days cal ''01/01/2026'' ''31/01/2026''))"
proof -
  obtain cal where g: "generate_calendar default_manager 2026 = Inr cal"
    using generate_calendar_succeeds [of 2026 default_manager] by auto
  note m = saturday_2026_01_03_in_calendar [OF g]
  show ?thesis
    using weekend_exclusion_is_global [OF g m, of "''01/01/2026''" "''31/01/2026''"] g m
    by simp
qed

text \<open>
  Claim C4 as stated fails: 3 January 2026 is a Saturday in neither holiday table, and
  the calendar lists it as non-working and not as working; no cohort can have it as a
  teaching day.
\<close>

theorem saturday_excluded_counterexample:
  "(case generate_calendar default_manager 2026 of
      Inl err \<Rightarrow> False
    | Inr cal \<Rightarrow>
        weekday (mk_date 2026 1 3) = 5 \<and>
        \<not> is_holiday default_manager (mk_date 2026 1 3) \<and>
        \<not> is_optional_holiday default_manager (mk_date 2026 1 3) \<and>
        strftime_dmY (mk_date 2026 1 3) \<in> set (get_non_working_days cal) \<and>
        strftime_dmY (mk_date 2026 1 3)
          \<notin> set (get_working_days cal ''01/01/2026'' ''31/12/2026''))"
proof -
  obtain cal where g: "generate_calendar default_manager 2026 = Inr cal"
    using generate_calendar_succeeds [of 2026 default_manager] by auto
  note m = saturday_2026_01_03_in_calendar [OF g]
  note d = days_of_distinct_calendar [OF generate_calendar_distinct [OF g] m]
  have h: "\<not> is_holiday default_manager (mk_date 2026 1 3)"
    using entry_default_2026_01_03 make_entry_fields(1) [of default_manager "mk_date 2026 1 3"]
    by simp
  have o: "\<not> is_optional_holiday default_manager (mk_date 2026 1 3)"
    using entry_default_2026_01_03 h
      make_entry_fields(2) [of default_manager "mk_date 2026 1 3"]
    by simp
  have n: "''03/01/2026'' \<in> set (get_non_working_days cal)"
    using d(1) by simp
  have w: "''03/01/2026'' \<notin> set (get_working_days cal ''01/01/2026'' ''31/12/2026'')"
    using d(2) n by simp
  show ?thesis
    using g h o n w key_2026_01_03 weekday_2026_01_03 by simp
qed

section \<open>The range of a generated calendar\<close>









section \<open>The order of the teaching days\<close>

lemma datetime_less_date_less:
  "datetime_less a b \<Longrightarrow> date_less b c \<Longrightarrow> datetime_less a c"
  by (auto simp: datetime_less_def date_less_def same_day_def)

lemma letive_loop_sorted:
  assumes "letive_loop cur fin acc = Inr res"
    and "sorted_wrt datetime_less acc"
    and "\<forall>d\<in>set acc. datetime_less d cur"
  shows "sorted_wrt datetime_less res \<and> (\<exists>rest. res = acc @ rest)"
  using assms
proof (induction cur fin acc rule: letive_loop.induct)
  case (1 cur fin acc)
  show ?case
  proof (cases "datetime_le cur fin")
    case False
    then have "res = acc" using "1.prems"(1) by (simp add: letive_loop.simps)
    then show ?thesis using "1.prems"(2) by simp
  next
    case True
    obtain nxt where nx: "add_one_day cur = Inr nxt"
      using "1.prems"(1) True
      by (cases "add_one_day cur") (simp_all add: letive_loop.simps Let_def)
    have n: "nxt = next_day cur" using add_one_day_Inr [OF nx] by blast
    have lt: "date_less cur nxt" using n date_less_next_day by simp
    let ?acc' = "if weekday cur \<in> set [0, 2, 4, 5] then acc @ [cur] else acc"
    have rec: "letive_loop nxt fin ?acc' = Inr res"
      using "1.prems"(1) True nx by (simp add: letive_loop.simps [of cur] Let_def)
    have s: "sorted_wrt datetime_less ?acc'"
      using "1.prems"(2,3) by (simp add: sorted_wrt_append)
    have b: "\<forall>d\<in>set ?acc'. datetime_less d nxt"
      using "1.prems"(3) lt datetime_less_date_less by (auto simp: datetime_less_def)
    have "sorted_wrt datetime_less res \<and> (\<exists>rest. res = ?acc' @ rest)"
      using "1.IH" [OF True refl nx rec s b] .
    then show ?thesis by auto
  qed
qed

lemma letive_loop_succeeds:
  "d_year fin < 9999 \<Longrightarrow> \<exists>res. letive_loop cur fin acc = Inr res"
proof (induction cur fin acc rule: letive_loop.induct)
  case (1 cur fin acc)
  show ?case
  proof (cases "datetime_le cur fin")
    case False
    then show ?thesis by (simp add: letive_loop.simps)
  next
    case True
    then have "d_year cur \<le> d_year fin"
      by (auto simp: datetime_le_def datetime_less_def date_less_def same_day_def)
    then have "d_year (next_day cur) \<le> 9999"
      using "1.prems" by (simp add: next_day_def)
    then have nx: "add_one_day cur = Inr (next_day cur)"
      by (simp add: add_one_day_def Let_def)
    show ?thesis
      using "1.IH" [OF True refl nx "1.prems"] True nx
      by (simp add: letive_loop.simps [of cur fin acc] Let_def)
  qed
qed

text \<open>
  Claim C7. \<open>_extract_letive_days\<close> returns a list, and the list is strictly increasing
  by date and time of day: of two neighbours the first has the earlier date, or the same
  date and the earlier time.
\<close>

theorem extract_letive_days_increasing:
  "\<exists>days. extract_letive_days rows = Inr days \<and>
     (\<forall>i. i + 1 < length days \<longrightarrow> datetime_less (days ! i) (days ! (i + 1)))"
proof -
  have "d_year (mk_datetime 2027 12 31) < 9999" by (simp add: mk_datetime_def)
  then obtain days where
    d: "letive_loop (mk_datetime 2026 3 1) (mk_datetime 2027 12 31) [] = Inr days"
    using letive_loop_succeeds by blast
  have "sorted_wrt datetime_less days"
    using letive_loop_sorted [OF d] by simp
  then have "\<forall>i. i + 1 < length days \<longrightarrow> datetime_less (days ! i) (days ! (i + 1))"
    by (simp add: sorted_wrt_iff_nth_less)
  then show ?thesis using d by (simp add: extract_letive_days_def)
qed

lemma letive_step:
  assumes "datetime_le c fin" "next_day c = n" "d_year n \<le> 9999" "weekday c = w"
  shows "letive_loop c fin acc =
         letive_loop n fin (if w \<in> set [0, 2, 4, 5] then acc @ [c] else acc)"
  using assms by (simp add: letive_loop.simps [of c] add_one_day_def Let_def)

lemma before_end_2027:
  "y < 2027 \<Longrightarrow> datetime_le (mk_datetime y m d) (mk_datetime 2027 12 31)"
  by (simp add: datetime_le_def datetime_less_def date_less_def mk_datetime_def)

lemma next_day_march_2026:
  "next_day (mk_datetime 2026 3 1) = mk_datetime 2026 3 2"
  "next_day (mk_datetime 2026 3 2) = mk_datetime 2026 3 3"
  "next_day (mk_datetime 2026 3 3) = mk_datetime 2026 3 4"
  "next_day (mk_datetime 2026 3 4) = mk_datetime 2026 3 5"
  by (simp_all add: next_day_def mk_datetime_def days_in_month_def)

lemma days_before_march_2026: "days_before_month 2026 3 = 59"
proof -
  have "[1..<3] = [1::nat, 2]" by (simp add: upt_conv_Cons)
  then show ?thesis
    by (simp add: days_before_month_def days_in_month_def is_leap_def)
qed

lemma weekday_march_2026:
  "weekday (mk_datetime 2026 3 1) = 6"
  "weekday (mk_datetime 2026 3 2) = 0"
  "weekday (mk_datetime 2026 3 3) = 1"
  "weekday (mk_datetime 2026 3 4) = 2"
  using days_before_march_2026
  by (simp_all add: weekday_def toordinal_def days_before_year_def mk_datetime_def)

lemma letive_first_days:
  "letive_loop (mk_datetime 2026 3 1) (mk_datetime 2027 12 31) [] =
   letive_loop (mk_datetime 2026 3 5) (mk_datetime 2027 12 31)
     [mk_datetime 2026 3 2, mk_datetime 2026 3 4]"
proof -
  let ?fin = "mk_datetime 2027 12 31"
  have y: "\<And>d. d_year (mk_datetime 2026 3 d) \<le> 9999" by (simp add: mk_datetime_def)
  have 1: "letive_loop (mk_datetime 2026 3 1) ?fin [] = letive_loop (mk_datetime 2026 3 2) ?fin []"
    using letive_step [OF before_end_2027 next_day_march_2026(1) y weekday_march_2026(1),
        of "[]"]
    by simp
  have 2: "letive_loop (mk_datetime 2026 3 2) ?fin [] =
           letive_loop (mk_datetime 2026 3 3) ?fin [mk_datetime 2026 3 2]"
    using letive_step [OF before_end_2027 next_day_march_2026(2) y weekday_march_2026(2),
        of "[]"]
    by simp
  have 3: "letive_loop (mk_datetime 2026 3 3) ?fin [mk_datetime 2026 3 2] =
           letive_loop (mk_datetime 2026 3 4) ?fin [mk_datetime 2026 3 2]"
    using letive_step [OF before_end_2027 next_day_march_2026(3) y weekday_march_2026(3),
        of "[mk_datetime 2026 3 2]"]
    by simp
  have 4: "letive_loop (mk_datetime 2026 3 4) ?fin [mk_datetime 2026 3 2] =
           letive_loop (mk_datetime 2026 3 5) ?fin [mk_datetime 2026 3 2, mk_datetime 2026 3 4]"
    using letive_step [OF before_end_2027 next_day_march_2026(4) y weekday_march_2026(4),
        of "[mk_datetime 2026 3 2]"]
    by simp
  show ?thesis using 1 2 3 4 by simp
qed

text \<open>The first two days of the list: Monday 2 and Wednesday 4 March 2026.\<close>

theorem extract_letive_days_increasing_witness:
  "(case extract_letive_days () of
      Inl err \<Rightarrow> False
    | Inr days \<Rightarrow>
        0 + 1 < length days \<and>
        days ! 0 = mk_datetime 2026 3 2 \<and>
        days ! (0 + 1) = mk_datetime 2026 3 4 \<and>
        datetime_less (days ! 0) (days ! (0 + 1)))"
proof -
  obtain days where d: "extract_letive_days () = Inr days"
    and i: "\<forall>i. i + 1 < length days \<longrightarrow> datetime_less (days ! i) (days ! (i + 1))"
    using extract_letive_days_increasing [of "()"] by blast
  have l: "letive_loop (mk_datetime 2026 3 5) (mk_datetime 2027 12 31)
             [mk_datetime 2026 3 2, mk_datetime 2026 3 4] = Inr days"
    using d letive_first_days by (simp add: extract_letive_days_def)
  have s: "sorted_wrt datetime_less [mk_datetime 2026 3 2, mk_datetime 2026 3 4]"
    by (simp add: datetime_less_def date_less_def mk_datetime_def)
  have b: "\<forall>x\<in>set [mk_datetime 2026 3 2, mk_datetime 2026 3 4].
             datetime_less x (mk_datetime 2026 3 5)"
    by (simp add: datetime_less_def date_less_def mk_datetime_def)
  obtain rest where r: "days = [mk_datetime 2026 3 2, mk_datetime 2026 3 4] @ rest"
    using letive_loop_sorted [OF l s b] by blast
  have n: "0 + 1 < length days" "days ! 0 = mk_datetime 2026 3 2"
    "days ! (0 + 1) = mk_datetime 2026 3 4"
    using r by simp_all
  have "datetime_less (days ! 0) (days ! (0 + 1))"
    using i n(1) by blast
  then show ?thesis using d n by simp
qed

section \<open>Marking holidays in a calendar dict\<close>

lemma dict_has_iff: "dict_has d k = (k \<in> fst ` set d)"
  by (simp add: dict_has_def map_of_eq_None_iff)

lemma mark_loop_length: "length (mark_loop kind tbl h m) = length h"
  by (induction kind tbl h m rule: mark_loop.induct) auto

lemma mark_loop_other: "b \<noteq> m \<Longrightarrow> mark_loop kind tbl h m ! b = h ! b"
  by (induction kind tbl h m rule: mark_loop.induct) auto

lemma mark_loop_lookup:
  "m < length h \<Longrightarrow>
   map_of (mark_loop kind tbl h m ! m) k =
     (case map_of (h ! m) k of
        Some v \<Rightarrow> Some v
      | None \<Rightarrow> map_option (holiday_mark kind) (map_of tbl k))"
proof (induction kind tbl h m rule: mark_loop.induct)
  case (1 kind h m)
  then show ?case by (simp split: option.splits)
next
  case (2 kind date_key holiday_name rest h m)
  show ?case
  proof (cases "dict_has (h ! m) date_key")
    case True
    then show ?thesis
      using "2.IH" "2.prems" by (auto simp: dict_has_def split: option.splits)
  next
    case False
    let ?h = "h[m := AList.update date_key (holiday_mark kind holiday_name) (h ! m)]"
    have l: "m < length ?h" using "2.prems" by simp
    have n: "?h ! m = AList.update date_key (holiday_mark kind holiday_name) (h ! m)"
      using "2.prems" by simp
    have "map_of (mark_loop kind rest ?h m ! m) k =
          (case map_of (?h ! m) k of
             Some v \<Rightarrow> Some v
           | None \<Rightarrow> map_option (holiday_mark kind) (map_of rest k))"
      using "2.IH" l False by simp
    then show ?thesis
      using False by (auto simp: n update_conv' dict_has_def split: option.splits)
  qed
qed

lemma mark_loop_prefix:
  "m < length h \<Longrightarrow> \<exists>added. mark_loop kind tbl h m ! m = h ! m @ added"
proof (induction kind tbl h m rule: mark_loop.induct)
  case (1 kind h m)
  then show ?case by simp
next
  case (2 kind date_key holiday_name rest h m)
  show ?case
  proof (cases "dict_has (h ! m) date_key")
    case True
    then show ?thesis using "2.IH" "2.prems" by simp
  next
    case False
    let ?h = "h[m := AList.update date_key (holiday_mark kind holiday_name) (h ! m)]"
    have l: "m < length ?h" using "2.prems" by simp
    have n: "?h ! m = h ! m @ [(date_key, holiday_mark kind holiday_name)]"
      using "2.prems" False update_new_key [of date_key "h ! m"] by (simp add: dict_has_iff)
    have "\<exists>added. mark_loop kind rest ?h m ! m = ?h ! m @ added"
      using "2.IH" l False by simp
    then obtain added where "mark_loop kind rest ?h m ! m = ?h ! m @ added"
      by blast
    then show ?thesis using False n by simp
  qed
qed

text \<open>
  Claim C8. \<open>mark_holidays_in_calendar\<close> overwrites nothing: every key of the dict it
  is given has its original value in the returned dict, the keys of the returned dict are
  those of the input and of the two holiday tables, the input's items come first and in
  their order, and the returned dict is a new object: every object of the store before
  the call, the input dict among them, is unchanged after it.
\<close>

theorem mark_holidays_keeps_entries:
  assumes "mark_holidays_in_calendar hm h calendar_dict = Some (h', marked)"
  shows "(\<forall>k v. map_of (h ! calendar_dict) k = Some v \<longrightarrow> map_of (h' ! marked) k = Some v) \<and>
         (\<forall>k. dict_has (h' ! marked) k =
                (dict_has (h ! calendar_dict) k \<or> dict_has (holidays hm) k \<or>
                 dict_has (optional_holidays hm) k)) \<and>
         (\<exists>added. h' ! marked = h ! calendar_dict @ added) \<and>
         marked = length h \<and> length h' = length h + 1 \<and>
         (\<forall>b < length h. h' ! b = h ! b)"
proof -
  let ?h1 = "h @ [h ! calendar_dict]"
  let ?m = "length h"
  let ?h2 = "mark_loop ''holiday'' (holidays hm) ?h1 ?m"
  let ?h3 = "mark_loop ''optional_holiday'' (optional_holidays hm) ?h2 ?m"
  have a: "calendar_dict < length h"
    using assms by (simp add: mark_holidays_in_calendar_def split: if_splits)
  have r: "h' = ?h3" "marked = ?m"
    using assms a by (auto simp: mark_holidays_in_calendar_def dict_copy_def Let_def)
  have l1: "?m < length ?h1" by simp
  have l2: "?m < length ?h2" by (simp add: mark_loop_length)
  have c: "?h1 ! ?m = h ! calendar_dict" by simp
  have k2: "\<And>k. map_of (?h2 ! ?m) k =
              (case map_of (h ! calendar_dict) k of
                 Some v \<Rightarrow> Some v
               | None \<Rightarrow> map_option (holiday_mark ''holiday'') (map_of (holidays hm) k))"
    using mark_loop_lookup [OF l1] c by simp
  have k3: "\<And>k. map_of (?h3 ! ?m) k =
              (case map_of (?h2 ! ?m) k of
                 Some v \<Rightarrow> Some v
               | None \<Rightarrow> map_option (holiday_mark ''optional_holiday'')
                           (map_of (optional_holidays hm) k))"
    using mark_loop_lookup [OF l2] by simp
  have p1: "\<forall>k v. map_of (h ! calendar_dict) k = Some v \<longrightarrow> map_of (h' ! marked) k = Some v"
    by (simp add: r k3 k2)
  have p2: "\<forall>k. dict_has (h' ! marked) k =
                (dict_has (h ! calendar_dict) k \<or> dict_has (holidays hm) k \<or>
                 dict_has (optional_holidays hm) k)"
    by (auto simp: r dict_has_def k3 k2 split: option.splits)
  obtain a2 where a2: "?h2 ! ?m = ?h1 ! ?m @ a2"
    using mark_loop_prefix [OF l1] by blast
  obtain a3 where a3: "?h3 ! ?m = ?h2 ! ?m @ a3"
    using mark_loop_prefix [OF l2] by blast
  have p3: "\<exists>added. h' ! marked = h ! calendar_dict @ added"
    using a2 a3 c r by (intro exI [of _ "a2 @ a3"]) simp
  have p4: "length h' = length h + 1"
    by (simp add: r mark_loop_length)
  have p5: "\<forall>b < length h. h' ! b = h ! b"
    by (simp add: r mark_loop_other nth_append)
  show ?thesis using p1 p2 p3 p4 p5 r(2) by blast
qed

text \<open>A calendar that already has an entry for 1 January, a holiday of the default tables.\<close>

theorem mark_holidays_keeps_entries_witness:
  "(case mark_holidays_in_calendar default_manager
           [[(''01/01'', PStr ''Recesso''), (''05/03'', PStr ''Aula inaugural'')]] 0 of
      None \<Rightarrow> False
    | Some (h', marked) \<Rightarrow>
        map_of (h' ! marked) ''01/01'' = Some (PStr ''Recesso'') \<and>
        map_of (h' ! marked) ''05/03'' = Some (PStr ''Aula inaugural'') \<and>
        dict_has (h' ! marked) ''25/12'' \<and>
        h' ! 0 = [(''01/01'', PStr ''Recesso''), (''05/03'', PStr ''Aula inaugural'')] \<and>
        marked = 1)"
proof -
  let ?h = "[[(''01/01'', PStr ''Recesso''), (''05/03'', PStr ''Aula inaugural'')]]"
  obtain h' marked where
    m: "mark_holidays_in_calendar default_manager ?h 0 = Some (h', marked)"
    by (simp add: mark_holidays_in_calendar_def dict_copy_def Let_def)
  note t = mark_holidays_keeps_entries [OF m]
  have t1: "\<And>k v. map_of (?h ! 0) k = Some v \<Longrightarrow> map_of (h' ! marked) k = Some v"
    using t by blast
  have t2: "\<And>k. dict_has (holidays default_manager) k \<Longrightarrow> dict_has (h' ! marked) k"
    using t by blast
  have t3: "marked = length ?h" "\<And>b. b < length ?h \<Longrightarrow> h' ! b = ?h ! b"
    using t by blast+
  have x: "dict_has (holidays default_manager) ''25/12''"
    by (simp add: dict_has_def default_manager_def default_holidays_def)
  have 1: "map_of (h' ! marked) ''01/01'' = Some (PStr ''Recesso'')"
    by (rule t1) simp
  have 2: "map_of (h' ! marked) ''05/03'' = Some (PStr ''Aula inaugural'')"
    by (rule t1) simp
  have 3: "dict_has (h' ! marked) ''25/12''"
    by (rule t2) (rule x)
  have 4: "h' ! 0 = [(''01/01'', PStr ''Recesso''), (''05/03'', PStr ''Aula inaugural'')]"
    using t3(2) [of 0] by simp
  have 5: "marked = 1" using t3(1) by simp
  show ?thesis using m 1 2 3 4 5 by simp
qed

section \<open>The schedule generator\<close>

lemma generate_weekly_schedule_known:
  assumes "semester = ''sem1'' \<or> semester = ''sem2''"
  shows "generate_weekly_schedule ds semester =
           Inr [(''type'', PStr ''weekly''), (''semester'', PStr semester),
                (''capacity'', PInt (if semester = ''sem1'' then 64 else 80)),
                (''slots'', PList WEEKLY_SLOTS), (''assignments'', PList [])]"
  using assms by (auto simp: generate_weekly_schedule_def dict_get_def capacity_def)

lemma generate_biweekly_schedule_known:
  assumes "semester = ''sem1'' \<or> semester = ''sem2''"
  shows "generate_biweekly_schedule ds semester =
           Inr [(''type'', PStr ''biweekly''), (''semester'', PStr semester),
                (''capacity'', PInt (if semester = ''sem1'' then 96 else 120)),
                (''slots'', PList BIWEEKLY_SLOTS), (''assignments'', PList [])]"
  using assms by (auto simp: generate_biweekly_schedule_def dict_get_def capacity_def)

lemma generate_weekly_schedule_unknown:
  "semester \<noteq> ''sem1'' \<Longrightarrow> semester \<noteq> ''sem2'' \<Longrightarrow>
   generate_weekly_schedule ds semester = Inl KeyError"
  by (simp add: generate_weekly_schedule_def dict_get_def capacity_def)

lemma no_assignments_no_sessions:
  "map_of schedule ''assignments'' = Some (PList []) \<Longrightarrow>
   assignments_of schedule = [] \<and> allocated_sessions name schedule = 0"
  by (simp add: assignments_of_def allocated_sessions_def)

lemma validate_nonempty_dict:
  "schedule \<noteq> [] \<Longrightarrow>
   warnings_of (validate_schedule (PDict schedule)) = [] \<and>
   conflicts_of (validate_schedule (PDict schedule)) = [] \<and>
   \<not> shortfall_recorded name (validate_schedule (PDict schedule))"
  by (simp add: validate_schedule_truthy warnings_of_def conflicts_of_def shortfall_recorded_def)

text \<open>
  Claim C1, as the code has it. For every list of disciplines and for the semesters
  \<open>sem1\<close> and \<open>sem2\<close>, each generator returns the same dict whatever the
  disciplines are: its type, the semester, the capacity of the semester, its fixed slot
  pattern under \<open>slots\<close> and the empty list under \<open>assignments\<close>. So no discipline
  is given a slot, whatever its required hours, and the validator records no warning for
  such a schedule, so no shortfall warning either.
\<close>

theorem schedule_generator_assigns_nothing:
  assumes "semester = ''sem1'' \<or> semester = ''sem2''"
  shows "\<exists>weekly biweekly.
           generate_weekly_schedule ds semester = Inr weekly \<and>
           generate_biweekly_schedule ds semester = Inr biweekly \<and>
           weekly =
             [(''type'', PStr ''weekly''), (''semester'', PStr semester),
              (''capacity'', PInt (if semester = ''sem1'' then 64 else 80)),
              (''slots'', PList WEEKLY_SLOTS), (''assignments'', PList [])] \<and>
           biweekly =
             [(''type'', PStr ''biweekly''), (''semester'', PStr semester),
              (''capacity'', PInt (if semester = ''sem1'' then 96 else 120)),
              (''slots'', PList BIWEEKLY_SLOTS), (''assignments'', PList [])] \<and>
           dict_get weekly ''slots'' = Inr (PList WEEKLY_SLOTS) \<and>
           dict_get biweekly ''slots'' = Inr (PList BIWEEKLY_SLOTS) \<and>
           dict_get weekly ''assignments'' = Inr (PList []) \<and>
           dict_get biweekly ''assignments'' = Inr (PList []) \<and>
           assignments_of weekly = [] \<and> assignments_of biweekly = [] \<and>
           allocated_sessions name weekly = 0 \<and> allocated_sessions name biweekly = 0 \<and>
           warnings_of (validate_schedule (PDict weekly)) = [] \<and>
           warnings_of (validate_schedule (PDict biweekly)) = [] \<and>
           \<not> shortfall_recorded name (validate_schedule (PDict weekly)) \<and>
           \<not> shortfall_recorded name (validate_schedule (PDict biweekly))"
proof -
  let ?w = "[(''type'', PStr ''weekly''), (''semester'', PStr semester),
             (''capacity'', PInt (if semester = ''sem1'' then 64 else 80)),
             (''slots'', PList WEEKLY_SLOTS), (''assignments'', PList [])]"
  let ?b = "[(''type'', PStr ''biweekly''), (''semester'', PStr semester),
             (''capacity'', PInt (if semester = ''sem1'' then 96 else 120)),
             (''slots'', PList BIWEEKLY_SLOTS), (''assignments'', PList [])]"
  have w: "generate_weekly_schedule ds semester = Inr ?w"
    using generate_weekly_schedule_known [OF assms] .
  have b: "generate_biweekly_schedule ds semester = Inr ?b"
    using generate_biweekly_schedule_known [OF assms] .
  have aw: "assignments_of ?w = [] \<and> allocated_sessions name ?w = 0"
    by (rule no_assignments_no_sessions) simp
  have ab: "assignments_of ?b = [] \<and> allocated_sessions name ?b = 0"
    by (rule no_assignments_no_sessions) simp
  have vw: "warnings_of (validate_schedule (PDict ?w)) = [] \<and>
            conflicts_of (validate_schedule (PDict ?w)) = [] \<and>
            \<not> shortfall_recorded name (validate_schedule (PDict ?w))"
    by (rule validate_nonempty_dict) simp
  have vb: "warnings_of (validate_schedule (PDict ?b)) = [] \<and>
            conflicts_of (validate_schedule (PDict ?b)) = [] \<and>
            \<not> shortfall_recorded name (validate_schedule (PDict ?b))"
    by (rule validate_nonempty_dict) simp
  have dw: "dict_get ?w ''slots'' = Inr (PList WEEKLY_SLOTS) \<and>
            dict_get ?w ''assignments'' = Inr (PList [])"
    by (simp add: dict_get_def)
  have db: "dict_get ?b ''slots'' = Inr (PList BIWEEKLY_SLOTS) \<and>
            dict_get ?b ''assignments'' = Inr (PList [])"
    by (simp add: dict_get_def)
  show ?thesis
    using w b aw ab vw vb dw db
    by (intro exI [of _ ?w] exI [of _ ?b]) simp
qed

text \<open>One discipline of 40 hours in the first semester.\<close>

theorem schedule_generator_assigns_nothing_witness:
  "(case generate_weekly_schedule
           [PDict [(''Disciplina'', PStr ''Criminologia I''), (''Hora_aula'', PNum 40)]]
           ''sem1'' of
      Inl err \<Rightarrow> False
    | Inr weekly \<Rightarrow>
        dict_get weekly ''slots'' = Inr (PList WEEKLY_SLOTS) \<and>
        dict_get weekly ''assignments'' = Inr (PList []) \<and>
        assignments_of weekly = [] \<and>
        allocated_sessions ''Criminologia I'' weekly = 0 \<and>
        warnings_of (validate_schedule (PDict weekly)) = [])"
proof -
  have s: "''sem1'' = ''sem1'' \<or> ''sem1'' = ''sem2''" by simp
  obtain weekly where
    "generate_weekly_schedule
       [PDict [(''Disciplina'', PStr ''Criminologia I''), (''Hora_aula'', PNum 40)]]
       ''sem1'' = Inr weekly"
    "dict_get weekly ''slots'' = Inr (PList WEEKLY_SLOTS)"
    "dict_get weekly ''assignments'' = Inr (PList [])"
    "assignments_of weekly = []"
    "allocated_sessions ''Criminologia I'' weekly = 0"
    "warnings_of (validate_schedule (PDict weekly)) = []"
    using schedule_generator_assigns_nothing [OF s,
        of "[PDict [(''Disciplina'', PStr ''Criminologia I''), (''Hora_aula'', PNum 40)]]"
           "''Criminologia I''"]
    by blast
  then show ?thesis by simp
qed

text \<open>
  Claim C1 as stated fails: a discipline of 40 hours needs 24 sessions of 100 minutes,
  it appears in no assignment, and no shortfall warning is recorded for it.
\<close>

theorem coverage_or_shortfall_counterexample:
  "required_session_count 40 100 = 24 \<and>
   (case generate_weekly_schedule
           [PDict [(''Disciplina'', PStr ''Criminologia I''), (''Hora_aula'', PNum 40)]]
           ''sem1'' of
      Inl err \<Rightarrow> False
    | Inr weekly \<Rightarrow>
        allocated_sessions ''Criminologia I'' weekly = 0 \<and>
        \<not> shortfall_recorded ''Criminologia I'' (validate_schedule (PDict weekly)))"
proof -
  have r: "required_session_count 40 100 = 24"
    by (simp add: required_session_count_def)
  have g: "generate_weekly_schedule
             [PDict [(''Disciplina'', PStr ''Criminologia I''), (''Hora_aula'', PNum 40)]]
             ''sem1'' =
           Inr [(''type'', PStr ''weekly''), (''semester'', PStr ''sem1''),
                (''capacity'', PInt 64),
                (''slots'', PList WEEKLY_SLOTS), (''assignments'', PList [])]"
    using generate_weekly_schedule_known [of "''sem1''"] by simp
  have a: "allocated_sessions ''Criminologia I''
             [(''type'', PStr ''weekly''), (''semester'', PStr ''sem1''),
              (''capacity'', PInt 64),
              (''slots'', PList WEEKLY_SLOTS), (''assignments'', PList [])] = 0"
    using no_assignments_no_sessions by simp
  have v: "\<not> shortfall_recorded ''Criminologia I''
             (validate_schedule (PDict
               [(''type'', PStr ''weekly''), (''semester'', PStr ''sem1''),
                (''capacity'', PInt 64),
                (''slots'', PList WEEKLY_SLOTS), (''assignments'', PList [])]))"
    using validate_nonempty_dict by simp
  show ?thesis using r g a v by simp
qed

section \<open>Loading the disciplines\<close>

lemma first_columns_table:
  "first_columns n (frame_of_table t) = zip [0..<length t] (map (take n) t)"
  by (simp add: first_columns_def frame_of_table_def zip_map2)

lemma convert_column_zip:
  "convert_column parse c (zip xs rows) =
   zip xs (map (\<lambda>r. r[c := to_numeric_cell parse (r ! c)]) rows)"
  by (simp add: convert_column_def zip_map2)

lemma reset_index_zip:
  "length xs = length rows \<Longrightarrow> reset_index (zip xs rows) = zip [0..<length rows] rows"
  by (simp add: reset_index_def)


lemma load_disciplines_closed_form:
  assumes "read_csv ev (distribution_file self) = Some t"
    and "t \<noteq> []" and "5 \<le> length (hd t)"
  shows "load_disciplines ev self =
           (True, self\<lparr>disciplines :=
              Some (filter (\<lambda>(i, r). r ! 1 \<noteq> CNaN)
                      (zip [0..<length (body_rows t)]
                         (map (numeric_row (to_numeric ev)) (body_rows t))))\<rparr>)"
proof -
  obtain r0 rest where t: "t = r0 # rest" using assms(2) by (cases t) auto
  have l: "length (take 5 r0) = 5" using assms(3) t by simp
  have u: "[0..<Suc (length rest)] = 0 # [1..<Suc (length rest)]"
    by (simp add: upt_rec)
  have d1: "first_columns 5 (frame_of_table t) =
            (0, take 5 r0) # zip [1..<Suc (length rest)] (map (take 5) rest)"
    unfolding first_columns_table t using u by simp
  have rs: "reset_index (zip [1..<Suc (length rest)] (map (take 5) rest)) =
            zip [0..<length rest] (map (take 5) rest)"
  proof -
    have len: "length [1..<Suc (length rest)] = length (map (take 5) rest)"
      by (simp del: upt_Suc)
    show ?thesis using reset_index_zip [OF len] by (simp only: length_map)
  qed
  have whole: "(0, take 5 r0) # zip [1..<Suc (length rest)] (map (take 5) rest) =
               zip [0..<length t] (map (take 5) t)"
    unfolding t using u by simp
  let ?b = "body_rows t"
  have d2: "(if take 5 r0 ! 0 = CStr ''Disciplina''
             then reset_index (zip [1..<Suc (length rest)] (map (take 5) rest))
             else (0, take 5 r0) # zip [1..<Suc (length rest)] (map (take 5) rest)) =
            zip [0..<length ?b] (map (take 5) ?b)"
    using rs whole by (simp add: body_rows_def t)
  have conv: "convert_column (to_numeric ev) 4
                (convert_column (to_numeric ev) 2
                  (convert_column (to_numeric ev) 1 (zip [0..<length ?b] (map (take 5) ?b)))) =
              zip [0..<length ?b] (map (numeric_row (to_numeric ev)) ?b)"
  proof -
    have "(\<lambda>r. (take 5 r)[1 := to_numeric_cell (to_numeric ev) (r ! 1),
                           2 := to_numeric_cell (to_numeric ev) (r ! 2),
                           4 := to_numeric_cell (to_numeric ev) (r ! 4)]) =
          numeric_row (to_numeric ev)"
      by (rule ext) (simp add: numeric_row_def Let_def)
    then show ?thesis by (simp add: convert_column_zip comp_def)
  qed
  show ?thesis
    unfolding load_disciplines_def assms(1) option.case Let_def d1 list.case prod.case l
    using d2 conv by (simp add: dropna_def)
qed

lemma rows_of_body: "set (body_rows t) \<subseteq> set t"
  by (auto simp: body_rows_def split: list.splits if_splits)

lemma numeric_row_hours:
  "2 \<le> length r \<Longrightarrow> numeric_row parse r ! 1 = to_numeric_cell parse (r ! 1)"
  by (simp add: numeric_row_def Let_def)

text \<open>
  Claim C6, as the code has it. When the file can be read and its table has a row and at
  least five columns, \<open>load_disciplines\<close> returns \<open>True\<close> whatever the hour cells
  hold, and changes \<open>self.disciplines\<close> only: the rows it keeps are exactly the rows
  after the header row whose hour cell is numeric, each with its position as index and
  with its numeric columns converted. A row whose hour cell is not numeric is dropped and
  nothing about it is stored.
\<close>

theorem load_disciplines_skips_non_numeric:
  assumes "read_csv ev (distribution_file self) = Some t"
    and "t \<noteq> []" and "5 \<le> length (hd t)" and "\<forall>r\<in>set t. length r = length (hd t)"
  shows "\<exists>f. load_disciplines ev self = (True, self\<lparr>disciplines := Some f\<rparr>) \<and>
             (\<forall>i r. ((i, r) \<in> set f) =
                      (i < length (body_rows t) \<and>
                       numeric_hours (to_numeric ev) (body_rows t ! i) \<and>
                       r = numeric_row (to_numeric ev) (body_rows t ! i)))"
proof -
  let ?b = "body_rows t"
  let ?g = "numeric_row (to_numeric ev)"
  let ?f = "filter (\<lambda>(i, r). r ! 1 \<noteq> CNaN) (zip [0..<length ?b] (map ?g ?b))"
  have c: "load_disciplines ev self = (True, self\<lparr>disciplines := Some ?f\<rparr>)"
    using load_disciplines_closed_form [OF assms(1-3)] .
  have len: "\<And>i. i < length ?b \<Longrightarrow> 2 \<le> length (?b ! i)"
  proof -
    fix i assume "i < length ?b"
    then have "?b ! i \<in> set t" using rows_of_body nth_mem by blast
    then show "2 \<le> length (?b ! i)" using assms(3,4) by simp
  qed
  have "\<forall>i r. ((i, r) \<in> set ?f) =
               (i < length ?b \<and> numeric_hours (to_numeric ev) (?b ! i) \<and> r = ?g (?b ! i))"
  proof (intro allI)
    fix i r
    have z: "((i, r) \<in> set (zip [0..<length ?b] (map ?g ?b))) =
             (i < length ?b \<and> r = ?g (?b ! i))"
    proof
      assume "(i, r) \<in> set (zip [0..<length ?b] (map ?g ?b))"
      then show "i < length ?b \<and> r = ?g (?b ! i)" by (auto simp: in_set_zip)
    next
      assume a: "i < length ?b \<and> r = ?g (?b ! i)"
      show "(i, r) \<in> set (zip [0..<length ?b] (map ?g ?b))"
        unfolding in_set_zip using a by (intro exI [of _ i]) simp
    qed
    show "((i, r) \<in> set ?f) =
          (i < length ?b \<and> numeric_hours (to_numeric ev) (?b ! i) \<and> r = ?g (?b ! i))"
      using z len [of i] numeric_row_hours [of "?b ! i" "to_numeric ev"]
      by (auto simp: numeric_hours_def)
  qed
  then show ?thesis using c by blast
qed

lemma sample_read:
  "read_csv (sample_env t clock) (distribution_file sample_analyzer) = Some t"
  by (simp add: sample_env_def sample_analyzer_def)

lemma decimal_40: "decimal_to_numeric ''40'' = Some 40"
  by (simp add: decimal_to_numeric_def digit_value_def)

lemma decimal_24: "decimal_to_numeric ''24'' = Some 24"
  by (simp add: decimal_to_numeric_def digit_value_def)

lemma decimal_quarenta: "decimal_to_numeric ''quarenta'' = None"
  by (simp add: decimal_to_numeric_def digit_value_def)

lemma sample_load:
  "load_disciplines (sample_env sample_rows clock) sample_analyzer =
     (True, sample_analyzer\<lparr>disciplines :=
        Some [(0, [CStr ''Criminologia I'', CNum 40, CNum 24, CStr ''CRI'', CNum 40])]\<rparr>)"
proof -
  have n: "sample_rows \<noteq> []" "5 \<le> length (hd sample_rows)"
    by (simp_all add: sample_rows_def)
  have b: "body_rows sample_rows =
             [[CStr ''Criminologia I'', CStr ''40'', CStr ''24'', CStr ''CRI'', CStr ''40''],
              [CStr ''Vitimologia'', CStr ''quarenta'', CStr ''24'', CStr ''VIT'', CStr ''40'']]"
    by (simp add: body_rows_def sample_rows_def)
  have u: "[0..<2] = [0, 1::nat]" by (simp add: upt_conv_Cons)
  have e: "to_numeric (sample_env sample_rows clock) = decimal_to_numeric"
    by (simp add: sample_env_def)
  show ?thesis
    unfolding load_disciplines_closed_form [OF sample_read n] b e
    using u decimal_40 decimal_24 decimal_quarenta
    by (simp add: numeric_row_def to_numeric_cell_def)
qed

lemma sample_load_without:
  "load_disciplines (sample_env (butlast sample_rows) clock) sample_analyzer =
     (True, sample_analyzer\<lparr>disciplines :=
        Some [(0, [CStr ''Criminologia I'', CNum 40, CNum 24, CStr ''CRI'', CNum 40])]\<rparr>)"
proof -
  have n: "butlast sample_rows \<noteq> []" "5 \<le> length (hd (butlast sample_rows))"
    by (simp_all add: sample_rows_def)
  have b: "body_rows (butlast sample_rows) =
             [[CStr ''Criminologia I'', CStr ''40'', CStr ''24'', CStr ''CRI'', CStr ''40'']]"
    by (simp add: body_rows_def sample_rows_def)
  have e: "to_numeric (sample_env (butlast sample_rows) clock) = decimal_to_numeric"
    by (simp add: sample_env_def)
  show ?thesis
    unfolding load_disciplines_closed_form [OF sample_read n] b e
    using decimal_40 decimal_24
    by (simp add: numeric_row_def to_numeric_cell_def)
qed

text \<open>The sample table: its first row after the header is kept, its second is not.\<close>

theorem load_disciplines_skips_non_numeric_witness:
  "(case load_disciplines (sample_env sample_rows (mk_datetime 2026 3 1)) sample_analyzer of
      (ok, analyzer) \<Rightarrow>
        ok \<and>
        (case disciplines analyzer of
           None \<Rightarrow> False
         | Some f \<Rightarrow>
             (0, [CStr ''Criminologia I'', CNum 40, CNum 24, CStr ''CRI'', CNum 40]) \<in> set f \<and>
             (1, numeric_row decimal_to_numeric (sample_rows ! 2)) \<notin> set f))"
proof -
  let ?ev = "sample_env sample_rows (mk_datetime 2026 3 1)"
  have n: "sample_rows \<noteq> []" "5 \<le> length (hd sample_rows)"
    "\<forall>r\<in>set sample_rows. length r = length (hd sample_rows)"
    by (simp_all add: sample_rows_def)
  obtain f where l: "load_disciplines ?ev sample_analyzer =
                       (True, sample_analyzer\<lparr>disciplines := Some f\<rparr>)"
    and m: "\<And>i r. ((i, r) \<in> set f) =
                   (i < length (body_rows sample_rows) \<and>
                    numeric_hours (to_numeric ?ev) (body_rows sample_rows ! i) \<and>
                    r = numeric_row (to_numeric ?ev) (body_rows sample_rows ! i))"
    using load_disciplines_skips_non_numeric [OF sample_read n] by blast
  have b: "body_rows sample_rows =
             [[CStr ''Criminologia I'', CStr ''40'', CStr ''24'', CStr ''CRI'', CStr ''40''],
              [CStr ''Vitimologia'', CStr ''quarenta'', CStr ''24'', CStr ''VIT'', CStr ''40'']]"
    by (simp add: body_rows_def sample_rows_def)
  have e: "to_numeric ?ev = decimal_to_numeric" by (simp add: sample_env_def)
  have 1: "(0, [CStr ''Criminologia I'', CNum 40, CNum 24, CStr ''CRI'', CNum 40]) \<in> set f"
    unfolding m b e using decimal_40 decimal_24
    by (simp add: numeric_hours_def numeric_row_def to_numeric_cell_def)
  have 2: "(1, numeric_row decimal_to_numeric (sample_rows ! 2)) \<notin> set f"
    unfolding m b e using decimal_quarenta
    by (simp add: numeric_hours_def to_numeric_cell_def)
  show ?thesis using l 1 2 by simp
qed

lemma process_cong:
  assumes "load_calendar e1 \<lparr>calendar_file = c, academic_calendar = None\<rparr> =
           load_calendar e2 \<lparr>calendar_file = c, academic_calendar = None\<rparr>"
    and "load_disciplines e1 \<lparr>distribution_file = d, disciplines = None, statistics = []\<rparr> =
         load_disciplines e2 \<lparr>distribution_file = d, disciplines = None, statistics = []\<rparr>"
    and "now e1 = now e2"
  shows "process e1 self c d = process e2 self c d"
  unfolding process_def assms ..

text \<open>
  Claim C6 as stated fails: the last row of the sample table has hours that are not a
  number, and both \<open>load_disciplines\<close> and \<open>process\<close> give the same result on the
  table with this row and on the table without it; no warning about the row is recorded.
\<close>

theorem skipped_row_not_reported_counterexample:
  "\<not> numeric_hours decimal_to_numeric (last sample_rows) \<and>
   load_disciplines (sample_env sample_rows (mk_datetime 2026 3 1)) sample_analyzer =
   load_disciplines (sample_env (butlast sample_rows) (mk_datetime 2026 3 1)) sample_analyzer \<and>
   process (sample_env sample_rows (mk_datetime 2026 3 1)) sample_manager
     ''CAL_2026-2027_Calendario.csv'' ''DIST_2026-2027_Criminologia.csv'' =
   process (sample_env (butlast sample_rows) (mk_datetime 2026 3 1)) sample_manager
     ''CAL_2026-2027_Calendario.csv'' ''DIST_2026-2027_Criminologia.csv''"
proof -
  have a: "\<not> numeric_hours decimal_to_numeric (last sample_rows)"
    using decimal_quarenta by (simp add: numeric_hours_def sample_rows_def to_numeric_cell_def)
  have b: "load_disciplines (sample_env sample_rows (mk_datetime 2026 3 1)) sample_analyzer =
           load_disciplines (sample_env (butlast sample_rows) (mk_datetime 2026 3 1))
             sample_analyzer"
    by (simp only: sample_load sample_load_without)
  have c: "process (sample_env sample_rows (mk_datetime 2026 3 1)) sample_manager
             ''CAL_2026-2027_Calendario.csv'' ''DIST_2026-2027_Criminologia.csv'' =
           process (sample_env (butlast sample_rows) (mk_datetime 2026 3 1)) sample_manager
             ''CAL_2026-2027_Calendario.csv'' ''DIST_2026-2027_Criminologia.csv''"
  proof (rule process_cong)
    show "load_calendar (sample_env sample_rows (mk_datetime 2026 3 1))
            \<lparr>calendar_file = ''CAL_2026-2027_Calendario.csv'', academic_calendar = None\<rparr> =
          load_calendar (sample_env (butlast sample_rows) (mk_datetime 2026 3 1))
            \<lparr>calendar_file = ''CAL_2026-2027_Calendario.csv'', academic_calendar = None\<rparr>"
      by (simp add: load_calendar_def sample_env_def)
    show "load_disciplines (sample_env sample_rows (mk_datetime 2026 3 1))
            \<lparr>distribution_file = ''DIST_2026-2027_Criminologia.csv'', disciplines = None,
             statistics = []\<rparr> =
          load_disciplines (sample_env (butlast sample_rows) (mk_datetime 2026 3 1))
            \<lparr>distribution_file = ''DIST_2026-2027_Criminologia.csv'', disciplines = None,
             statistics = []\<rparr>"
      using b by (simp add: sample_analyzer_def)
    show "now (sample_env sample_rows (mk_datetime 2026 3 1)) =
          now (sample_env (butlast sample_rows) (mk_datetime 2026 3 1))"
      by (simp add: sample_env_def)
  qed
  show ?thesis using a b c by blast
qed

section \<open>Repeated runs of the pipeline\<close>

lemma load_calendar_now: "load_calendar (ev\<lparr>now := t\<rparr>) cv = load_calendar ev cv"
  by (simp add: load_calendar_def)

lemma load_disciplines_now: "load_disciplines (ev\<lparr>now := t\<rparr>) da = load_disciplines ev da"
  by (simp add: load_disciplines_def Let_def split: option.splits list.splits)

lemma delete_update_other:
  "k \<noteq> k' \<Longrightarrow> AList.delete k (AList.update k' v l) = AList.update k' v (AList.delete k l)"
  by (induction l) auto

lemma steps_of_delete: "steps_of (AList.delete ''timestamp'' r) = steps_of r"
  by (simp add: steps_of_def delete_conv')

lemma delete_set_step:
  "AList.delete ''timestamp'' (set_step r n v) = set_step (AList.delete ''timestamp'' r) n v"
  by (simp add: set_step_def delete_update_other steps_of_delete)

text \<open>
  Claim C3, as the code has it. Two runs of \<open>process\<close> on the same files differ at
  most in the value stored under \<open>timestamp\<close>, which is the reading of the clock:
  without that item the two results are equal, whatever the two clocks show.
\<close>

theorem process_clock_only_in_timestamp:
  "map_sum id (AList.delete ''timestamp'') (process (ev\<lparr>now := clock_a\<rparr>) self c d) =
   map_sum id (AList.delete ''timestamp'') (process (ev\<lparr>now := clock_b\<rparr>) self c d)"
  unfolding process_def load_calendar_now load_disciplines_now
  by (simp add: Let_def delete_set_step delete_update_other split: prod.splits sum.splits)


text \<open>The two runs of the counterexample below, without their timestamps.\<close>

theorem process_clock_only_in_timestamp_witness:
  "map_sum id (AList.delete ''timestamp'')
     (process (sample_env sample_rows (mk_datetime 2026 3 1)) sample_manager
        ''CAL_2026-2027_Calendario.csv'' ''DIST_2026-2027_Criminologia.csv'') =
   map_sum id (AList.delete ''timestamp'')
     (process (sample_env sample_rows (mk_datetime 2026 3 2)) sample_manager
        ''CAL_2026-2027_Calendario.csv'' ''DIST_2026-2027_Criminologia.csv'')"
  using process_clock_only_in_timestamp
    [where ev = "sample_env sample_rows (mk_datetime 2026 3 1)"
       and clock_a = "mk_datetime 2026 3 1" and clock_b = "mk_datetime 2026 3 2"
       and self = sample_manager
       and c = "''CAL_2026-2027_Calendario.csv''"
       and d = "''DIST_2026-2027_Criminologia.csv''"]
  by (simp add: sample_env_def)

lemma map_of_set_step:
  "map_of (set_step r n v) ''timestamp'' = map_of r ''timestamp''"
  by (simp add: set_step_def update_conv')

lemma process_timestamp:
  assumes "process ev self c d = Inr r"
  shows "map_of r ''timestamp'' = Some (PStr (isoformat (now ev)))"
  using assms unfolding process_def
  by (auto simp: Let_def map_of_set_step update_conv' split: prod.splits sum.splits if_splits)

lemma sample_process_returns:
  "\<exists>r. process (sample_env sample_rows clock) sample_manager
          ''CAL_2026-2027_Calendario.csv'' ''DIST_2026-2027_Criminologia.csv'' = Inr r"
proof -
  have c: "load_calendar (sample_env sample_rows clock)
             \<lparr>calendar_file = ''CAL_2026-2027_Calendario.csv'', academic_calendar = None\<rparr> =
           (True, \<lparr>calendar_file = ''CAL_2026-2027_Calendario.csv'',
                   academic_calendar = Some (frame_of_table [[CStr ''2026'']])\<rparr>)"
    by (simp add: load_calendar_def sample_env_def)
  have l: "load_disciplines (sample_env sample_rows clock)
             \<lparr>distribution_file = ''DIST_2026-2027_Criminologia.csv'', disciplines = None,
              statistics = []\<rparr> =
           (True, \<lparr>distribution_file = ''DIST_2026-2027_Criminologia.csv'',
                   disciplines =
                     Some [(0, [CStr ''Criminologia I'', CNum 40, CNum 24, CStr ''CRI'', CNum 40])],
                   statistics = []\<rparr>)"
    using sample_load [of clock] by (simp add: sample_analyzer_def)
  have a: "\<exists>x y z st. analyze
             \<lparr>distribution_file = ''DIST_2026-2027_Criminologia.csv'',
              disciplines =
                Some [(0, [CStr ''Criminologia I'', CNum 40, CNum 24, CStr ''CRI'', CNum 40])],
              statistics = []\<rparr> =
           ([(''total_disciplines'', x), (''total_hours'', y), (''by_load'', z)], st)"
    by (simp add: analyze_def frame_empty_def Let_def)
  have w: "\<exists>s. generate_weekly_schedule [] ''sem1'' = Inr s"
    using generate_weekly_schedule_known [of "''sem1''" "[]"] by simp
  have b: "\<exists>s. generate_biweekly_schedule [] ''sem1'' = Inr s"
    using generate_biweekly_schedule_known [of "''sem1''" "[]"] by simp
  obtain x y z st where a': "analyze
             \<lparr>distribution_file = ''DIST_2026-2027_Criminologia.csv'',
              disciplines =
                Some [(0, [CStr ''Criminologia I'', CNum 40, CNum 24, CStr ''CRI'', CNum 40])],
              statistics = []\<rparr> =
           ([(''total_disciplines'', x), (''total_hours'', y), (''by_load'', z)], st)"
    using a by blast
  obtain ws where w': "generate_weekly_schedule [] ''sem1'' = Inr ws" using w by blast
  obtain bs where b': "generate_biweekly_schedule [] ''sem1'' = Inr bs" using b by blast
  show ?thesis
    unfolding process_def c l
    using a' w' b' by (simp add: Let_def dict_get_def)
qed

lemma isoformat_2026_03_01: "isoformat (mk_datetime 2026 3 1) = ''2026-03-01T00:00:00''"
  using fmt04_2026
  by (simp add: isoformat_def mk_datetime_def fmt02_def str_nat_digit digit_char_def)

lemma isoformat_2026_03_02: "isoformat (mk_datetime 2026 3 2) = ''2026-03-02T00:00:00''"
  using fmt04_2026
  by (simp add: isoformat_def mk_datetime_def fmt02_def str_nat_digit digit_char_def)

text \<open>
  Claim C3 as stated fails: two runs on the same two files, one on 1 March 2026 and one
  a day later, return different results.
\<close>

theorem repeated_runs_differ_counterexample:
  "process (sample_env sample_rows (mk_datetime 2026 3 1)) sample_manager
     ''CAL_2026-2027_Calendario.csv'' ''DIST_2026-2027_Criminologia.csv'' \<noteq>
   process (sample_env sample_rows (mk_datetime 2026 3 2)) sample_manager
     ''CAL_2026-2027_Calendario.csv'' ''DIST_2026-2027_Criminologia.csv''"
proof
  assume e: "process (sample_env sample_rows (mk_datetime 2026 3 1)) sample_manager
               ''CAL_2026-2027_Calendario.csv'' ''DIST_2026-2027_Criminologia.csv'' =
             process (sample_env sample_rows (mk_datetime 2026 3 2)) sample_manager
               ''CAL_2026-2027_Calendario.csv'' ''DIST_2026-2027_Criminologia.csv''"
  obtain r where r: "process (sample_env sample_rows (mk_datetime 2026 3 1)) sample_manager
               ''CAL_2026-2027_Calendario.csv'' ''DIST_2026-2027_Criminologia.csv'' = Inr r"
    using sample_process_returns by blast
  have 1: "map_of r ''timestamp'' = Some (PStr ''2026-03-01T00:00:00'')"
    using process_timestamp [OF r] isoformat_2026_03_01 by (simp add: sample_env_def)
  have 2: "map_of r ''timestamp'' = Some (PStr ''2026-03-02T00:00:00'')"
    using process_timestamp [OF r [unfolded e]] isoformat_2026_03_02
    by (simp add: sample_env_def)
  show False using 1 2 by simp
qed

end
